theory Spec2Isabelle
  imports
    Main
    "HOL-Library.Multiset"
    "HOL-Library.Product_Lexorder"
    "HOL-Library.List_Lexorder"
    "HOL-Library.Char_ord"
begin

section \<open>Dates, datetimes and durations\<close>

text \<open>
  The controllers of \<^verbatim>\<open>khal/controllers.py\<close> compute with Python's
  \<^verbatim>\<open>date\<close>, \<^verbatim>\<open>datetime\<close> and \<^verbatim>\<open>timedelta\<close>. A date is its
  proleptic Gregorian ordinal (\<^verbatim>\<open>date.toordinal()\<close>), a zone-naive datetime is
  the number of microseconds since midnight of ordinal 0, and a timedelta is a number
  of microseconds. Python's dates end at year 9999, where an addition raises
  OverflowError; the model has no such upper end.
\<close>

type_synonym pydate = int
type_synonym naive = int
type_synonym timedelta = int

definition usec_per_day :: int where
  "usec_per_day = 86400000000"

definition timedelta_days :: "int \<Rightarrow> timedelta" where
  "timedelta_days n = n * usec_per_day"

definition dt_date :: "naive \<Rightarrow> pydate" where
  "dt_date t = t div usec_per_day"

definition midnight :: "pydate \<Rightarrow> naive" where
  "midnight d = d * usec_per_day"

definition is_midnight :: "naive \<Rightarrow> bool" where
  "is_midnight t = (t mod usec_per_day = 0)"

text \<open>
  \<^verbatim>\<open>date.weekday()\<close> of the standard library: Monday is 0, and ordinal 1
  (0001-01-01) is a Monday.
\<close>

definition weekday :: "pydate \<Rightarrow> int" where
  "weekday d = (d + 6) mod 7"

text \<open>The standard library's \<^verbatim>\<open>_ymd2ord\<close>, with the validation of \<^verbatim>\<open>date(y, m, d)\<close>.\<close>

definition is_leap :: "int \<Rightarrow> bool" where
  "is_leap y = (y mod 4 = 0 \<and> (y mod 100 \<noteq> 0 \<or> y mod 400 = 0))"

definition days_before_year :: "int \<Rightarrow> int" where
  "days_before_year year = (let y = year - 1 in y * 365 + y div 4 - y div 100 + y div 400)"

definition days_in_month :: "int \<Rightarrow> int \<Rightarrow> int" where
  "days_in_month year month =
     (if month = 2 \<and> is_leap year then 29
      else [31, 28, 31, 30, 31, 30, 31, 31, 30, 31, 30, 31] ! nat (month - 1))"

definition days_before_month :: "int \<Rightarrow> int \<Rightarrow> int" where
  "days_before_month year month =
     [0, 31, 59, 90, 120, 151, 181, 212, 243, 273, 304, 334] ! nat (month - 1)
       + (if month > 2 \<and> is_leap year then 1 else 0)"

definition ymd :: "int \<Rightarrow> int \<Rightarrow> int \<Rightarrow> pydate option" where
  "ymd year month day =
     (if 1 \<le> year \<and> year \<le> 9999 \<and> 1 \<le> month \<and> month \<le> 12
         \<and> 1 \<le> day \<and> day \<le> days_in_month year month
      then Some (days_before_year year + days_before_month year month + day)
      else None)"

text \<open>
  A datetime that may carry a timezone: the wall-clock reading and the zone's name.
  \<^verbatim>\<open>tz.localize(dt)\<close> attaches the zone to the reading and
  \<^verbatim>\<open>dt.replace(tzinfo=None)\<close> drops it, both leaving the reading as it is.
\<close>

record pydatetime =
  wall :: naive
  tzinfo :: "string option"

text \<open>A value that is a bare date or a datetime, as \<^verbatim>\<open>event.start\<close> is.\<close>

datatype temporal = ADate pydate | ADateTime pydatetime

definition naive_dt :: "naive \<Rightarrow> temporal" where
  "naive_dt t = ADateTime \<lparr>wall = t, tzinfo = None\<rparr>"

definition replace_tzinfo_None :: "pydatetime \<Rightarrow> naive" where
  "replace_tzinfo_None dt = wall dt"

section \<open>Collaborators\<close>

text \<open>The locale dictionary, with the two entries the controllers and the fill-in read.\<close>

record locale_conf =
  longdateformat :: string
  local_timezone :: string

text \<open>
  Modelled from the spec: \<^verbatim>\<open>aux.datetime_fillin(dt=None, end=True, locale=None, day=None)\<close>
  of \<^verbatim>\<open>khal/aux.py\<close>, which is not part of the sources at hand. The specification
  describes it as the fill-in that, "given a bare date or datetime and an end flag,
  returns a fully zoned datetime at start-of-day or end-of-day as appropriate, using the
  active locale's timezone", reads \<^verbatim>\<open>datetime_fillin(end=False)\<close> as start-of-today and
  \<^verbatim>\<open>datetime_fillin(day=start)\<close> as start-of-tomorrow, and places every day boundary at
  local midnight: the end of day \<open>d\<close> is the midnight that begins day \<open>d + 1\<close>.
  A datetime that is passed in keeps its reading and only receives the locale's zone
  when it has none. The first argument is the current date (\<^verbatim>\<open>date.today()\<close>).
\<close>

definition datetime_fillin ::
  "pydate \<Rightarrow> temporal option \<Rightarrow> bool \<Rightarrow> locale_conf option \<Rightarrow> temporal option \<Rightarrow> pydatetime" where
  "datetime_fillin today dt end locale day =
     (let zone = map_option local_timezone locale;
          base = (case day of
                    None \<Rightarrow> today
                  | Some (ADate d) \<Rightarrow> d
                  | Some (ADateTime t) \<Rightarrow> dt_date (wall t));
          v = (case dt of None \<Rightarrow> ADate base | Some x \<Rightarrow> x)
      in case v of
           ADate d \<Rightarrow> \<lparr>wall = (if end then midnight (d + 1) else midnight d), tzinfo = zone\<rparr>
         | ADateTime t \<Rightarrow> (case tzinfo t of None \<Rightarrow> t\<lparr>tzinfo := zone\<rparr> | Some z \<Rightarrow> t))"

text \<open>
  An event of the collection, as far as the controllers touch it: its start, its
  calendar colour, and the two rendering methods. \<^verbatim>\<open>event.format\<close> raises KeyError
  for a template key that is missing (\<open>Inl\<close> the key).
\<close>

type_synonym env = "string \<rightharpoonup> string"

record event =
  ev_start :: temporal
  ev_tiebreak :: string
  ev_color :: string
  ev_format :: "string option \<Rightarrow> naive \<times> naive \<Rightarrow> env \<Rightarrow> string + string"
  ev_relative_to :: "pydate \<Rightarrow> bool \<Rightarrow> string"

text \<open>
  Modelled from the spec: the order of events that \<^verbatim>\<open>sorted\<close> uses, which is the
  comparison of the \<^verbatim>\<open>Event\<close> class in \<^verbatim>\<open>khal/khalendar/event.py\<close>, not part of
  the sources at hand. The specification calls it the canonical event order: "a total
  ordering over RawEvent (start time primary key, secondary tie-break defined by that
  layer)", the tie-break being for instance the summary or the uid. The start time is
  the zone-naive reading of the start, a bare date counting as its midnight.
\<close>

definition start_reading :: "temporal \<Rightarrow> naive" where
  "start_reading s = (case s of ADate d \<Rightarrow> midnight d | ADateTime t \<Rightarrow> wall t)"

definition canonical_key :: "event \<Rightarrow> naive \<times> string" where
  "canonical_key e = (start_reading (ev_start e), ev_tiebreak e)"

text \<open>Python's \<^verbatim>\<open>sorted\<close> is stable, as insertion into a sorted list from the right is.\<close>

definition sorted_events :: "event list \<Rightarrow> event list" where
  "sorted_events evs = sort_key canonical_key evs"

text \<open>The calendar collection: the three queries the controllers send to it.\<close>

record collection =
  get_events_on :: "pydate \<Rightarrow> event list"
  get_localized :: "pydatetime \<Rightarrow> pydatetime \<Rightarrow> event list"
  get_floating :: "naive \<Rightarrow> naive \<Rightarrow> event list"

text \<open>
  What the controllers take from outside this file: the clock, the parsers of
  \<^verbatim>\<open>khal/aux.py\<close> (an \<open>Inl\<close> is the message of the exception the source catches
  around the call: InvalidDate for the two date parsers, ValueError for the duration
  parser), and the standard library's \<^verbatim>\<open>textwrap.wrap\<close>, \<^verbatim>\<open>str.splitlines\<close> and
  \<^verbatim>\<open>date.strftime\<close>. They are parameters of the model; nothing is assumed about
  what they return. An exception of a collaborator that the controllers do not catch
  (a read error of the collection, the ValueError of \<^verbatim>\<open>textwrap.wrap\<close> for a width
  below 1) passes through them unchanged and is not part of the model.
\<close>

record deps =
  today :: pydate
  guessdatetimefstr :: "string list \<Rightarrow> locale_conf \<Rightarrow> string + (naive \<times> bool)"
  guessrangefstr :: "string list \<Rightarrow> locale_conf \<Rightarrow> string option \<Rightarrow> string + (naive option \<times> naive option)"
  guesstimedeltafstr :: "string \<Rightarrow> string + timedelta"
  textwrap_wrap :: "string \<Rightarrow> int \<Rightarrow> string list"
  splitlines :: "string \<Rightarrow> string list"
  strftime :: "pydate \<Rightarrow> string \<Rightarrow> string"

section \<open>Results\<close>

text \<open>
  The exceptions the controllers catch, and the way they end the call: the error is
  logged with \<^verbatim>\<open>logging.fatal\<close> and the process exits with status 1.
\<close>

datatype exc = InvalidDate string | KeyError string | ValueError string

datatype abort = SysExit1 exc

text \<open>
  A line of the returned column is a string. The model keeps the call that produced
  it: a plain string, \<^verbatim>\<open>click.style(s, bold=b)\<close>, or
  \<^verbatim>\<open>colored(s, color, bold_for_light_color=b)\<close> of \<^verbatim>\<open>khal/terminal.py\<close>.
\<close>

datatype line = Plain string | Style string bool | Colored string string bool

definition no_events :: "line list" where
  "no_events = [Style ''No events'' True]"

text \<open>Python's truth value of a list.\<close>

definition nonempty :: "'a list \<Rightarrow> bool" where
  "nonempty xs = (case xs of [] \<Rightarrow> False | _ # _ \<Rightarrow> True)"

section \<open>get\_list\<close>

text \<open>
  The zone-naive start of an event, as the loop of \<^verbatim>\<open>get_list\<close> computes it:
  \<^verbatim>\<open>aux.datetime_fillin(event.start, end=False, locale=locale).replace(tzinfo=None)\<close>.
\<close>

definition event_start_naive :: "pydate \<Rightarrow> locale_conf \<Rightarrow> event \<Rightarrow> naive" where
  "event_start_naive tod locale e =
     replace_tzinfo_None (datetime_fillin tod (Some (ev_start e)) False (Some locale) None)"

text \<open>
  What one rendered string adds to the list: \<^verbatim>\<open>textwrap.wrap(event_string, width)\<close>
  when \<^verbatim>\<open>if width:\<close> holds, which it does not for \<^verbatim>\<open>None\<close> and for 0, and the
  string itself otherwise. The lines are the strings as they are.
\<close>

definition list_lines :: "deps \<Rightarrow> int option \<Rightarrow> string \<Rightarrow> line list" where
  "list_lines D width event_string =
     (case width of
        None \<Rightarrow> [Plain event_string]
      | Some w \<Rightarrow>
          if w \<noteq> 0 then map Plain (textwrap_wrap D event_string w)
          else [Plain event_string])"

text \<open>
  The body of the loop over the merged events: an event is skipped when
  \<open>notstarted\<close> holds and it starts before \<open>start\<close>; a KeyError of
  \<^verbatim>\<open>event.format\<close> is fatal; the rendered string is wrapped when a width is given.
\<close>

fun get_list_loop ::
  "deps \<Rightarrow> locale_conf \<Rightarrow> naive \<Rightarrow> naive \<Rightarrow> string option \<Rightarrow> bool \<Rightarrow> env \<Rightarrow> int option
     \<Rightarrow> event list \<Rightarrow> line list \<Rightarrow> abort + line list" where
  "get_list_loop D locale start end format notstarted env width [] event_list = Inr event_list"
| "get_list_loop D locale start end format notstarted env width (event # events) event_list =
     (if \<not> (notstarted \<and> event_start_naive (today D) locale event < start) then
        (case ev_format event format (start, end) env of
           Inl k \<Rightarrow> Inl (SysExit1 (KeyError k))
         | Inr event_string \<Rightarrow>
             get_list_loop D locale start end format notstarted env width events
               (event_list @ list_lines D width event_string))
      else get_list_loop D locale start end format notstarted env width events event_list)"

text \<open>The two queries and the merge: each result is sorted, then their concatenation is.\<close>

definition merged_events :: "deps \<Rightarrow> collection \<Rightarrow> locale_conf \<Rightarrow> naive \<Rightarrow> naive \<Rightarrow> event list" where
  "merged_events D coll locale start end =
     (let start_local = datetime_fillin (today D) (Some (naive_dt start)) False (Some locale) None;
          end_local = datetime_fillin (today D) (Some (naive_dt end)) True (Some locale) None;
          start' = replace_tzinfo_None start_local;
          end' = replace_tzinfo_None end_local;
          events = sorted_events (get_localized coll start_local end_local);
          events_float = sorted_events (get_floating coll start' end')
      in sorted_events (events @ events_float))"

definition get_list ::
  "deps \<Rightarrow> collection \<Rightarrow> locale_conf \<Rightarrow> naive \<Rightarrow> naive \<Rightarrow> string option \<Rightarrow> bool \<Rightarrow> env option
     \<Rightarrow> int option \<Rightarrow> abort + line list" where
  "get_list D coll locale start end format notstarted env width =
     (let env' = (case env of None \<Rightarrow> Map.empty | Some m \<Rightarrow> m);
          start' = replace_tzinfo_None
                     (datetime_fillin (today D) (Some (naive_dt start)) False (Some locale) None);
          end' = replace_tzinfo_None
                   (datetime_fillin (today D) (Some (naive_dt end)) True (Some locale) None)
      in get_list_loop D locale start' end' format notstarted env' width
           (merged_events D coll locale start end) [])"

section \<open>get\_list\_from\_str\<close>

definition join_space :: "string list \<Rightarrow> string" where
  "join_space ws = (case ws of [] \<Rightarrow> [] | w # rest \<Rightarrow> w @ concat (map (\<lambda>x. '' '' @ x) rest))"

text \<open>
  The first half of \<^verbatim>\<open>get_list_from_str\<close>: the range \<open>(start, end)\<close> that the
  tokens and the default duration stand for, or the fatal error.
\<close>

definition resolve_range ::
  "deps \<Rightarrow> locale_conf \<Rightarrow> string list \<Rightarrow> string option \<Rightarrow> abort + (naive \<times> naive)" where
  "resolve_range D locale daterange default_timedelta =
     (if length daterange = 0 then
        (let start = wall (datetime_fillin (today D) None False None None) in
         case default_timedelta of
           None \<Rightarrow>
             Inr (start, wall (datetime_fillin (today D) None True None (Some (naive_dt start))))
         | Some td \<Rightarrow>
             (case guesstimedeltafstr D td of
                Inl e \<Rightarrow> Inl (SysExit1 (ValueError e))
              | Inr delta \<Rightarrow> Inr (start, start + delta)))
      else
        (case guessrangefstr D daterange locale default_timedelta of
           Inl msg \<Rightarrow> Inl (SysExit1 (InvalidDate msg))
         | Inr (Some start, Some end) \<Rightarrow> Inr (start, end)
         | Inr _ \<Rightarrow>
             Inl (SysExit1 (InvalidDate
               (''Invalid date range: '' @ [CHR 0x22] @ join_space daterange @ [CHR 0x22])))))"

text \<open>The two datetimes the day-by-day loop computes from its cursor.\<close>

definition day_end_of :: "deps \<Rightarrow> naive \<Rightarrow> naive \<Rightarrow> naive" where
  "day_end_of D start end =
     (if dt_date start = dt_date end then end
      else wall (datetime_fillin (today D) (Some (ADate (dt_date start))) True None None))"

definition next_start :: "deps \<Rightarrow> naive \<Rightarrow> naive" where
  "next_start D start =
     wall (datetime_fillin (today D) (Some (ADate (dt_date start))) False None None)
       + timedelta_days 1"

text \<open>
  The \<^verbatim>\<open>while start < end\<close> loop of the branch \<^verbatim>\<open>not once\<close>: one call of
  \<^verbatim>\<open>get_list\<close> for each day, whose lines extend the column.
\<close>

function day_loop ::
  "deps \<Rightarrow> collection \<Rightarrow> locale_conf \<Rightarrow> string option \<Rightarrow> bool \<Rightarrow> env \<Rightarrow> int option
     \<Rightarrow> naive \<Rightarrow> naive \<Rightarrow> line list \<Rightarrow> abort + line list" where
  "day_loop D coll locale format notstarted env width start end event_column =
     (if start < end then
        (case get_list D coll locale start (day_end_of D start end) format notstarted
                (Some env) width of
           Inl a \<Rightarrow> Inl a
         | Inr ls \<Rightarrow>
             day_loop D coll locale format notstarted env width (next_start D start) end
               (event_column @ ls))
      else Inr event_column)"
  by pat_completeness auto
termination
proof (relation "measure (\<lambda>(D, coll, locale, format, notstarted, env, width, start, stop, col).
                            nat (stop - start))", goal_cases)
  case 1
  show ?case by simp
next
  case (2 D coll loc fmt notstarted env width start stop col ls)
  have "start = (start div usec_per_day) * usec_per_day + start mod usec_per_day"
    by simp
  moreover have "start mod usec_per_day < usec_per_day"
    by (simp add: usec_per_day_def)
  ultimately have "start < (start div usec_per_day) * usec_per_day + usec_per_day"
    by linarith
  then have "start < next_start D start"
    by (simp add: next_start_def datetime_fillin_def midnight_def dt_date_def timedelta_days_def)
  with 2 show ?case by simp
qed

declare day_loop.simps [simp del]

text \<open>The column before the final check for emptiness.\<close>

definition list_column ::
  "deps \<Rightarrow> collection \<Rightarrow> locale_conf \<Rightarrow> string list \<Rightarrow> bool \<Rightarrow> string option \<Rightarrow> bool
     \<Rightarrow> string option \<Rightarrow> env option \<Rightarrow> int option \<Rightarrow> abort + line list" where
  "list_column D coll locale daterange notstarted format once default_timedelta env width =
     (case resolve_range D locale daterange default_timedelta of
        Inl a \<Rightarrow> Inl a
      | Inr (start, end) \<Rightarrow>
          if \<not> once then
            day_loop D coll locale format notstarted
              (case env of None \<Rightarrow> Map.empty | Some m \<Rightarrow> m) width start end []
          else get_list D coll locale start end format notstarted None width)"

definition get_list_from_str ::
  "deps \<Rightarrow> collection \<Rightarrow> locale_conf \<Rightarrow> string list \<Rightarrow> bool \<Rightarrow> string option \<Rightarrow> bool
     \<Rightarrow> string option \<Rightarrow> env option \<Rightarrow> int option \<Rightarrow> abort + line list" where
  "get_list_from_str D coll locale daterange notstarted format once default_timedelta env width =
     (case list_column D coll locale daterange notstarted format once default_timedelta env width of
        Inl a \<Rightarrow> Inl a
      | Inr event_column \<Rightarrow> Inr (if event_column = [] then no_events else event_column))"

text \<open>
  The sub-ranges the loop hands to \<^verbatim>\<open>get_list\<close>, in the order of the calls: the
  same loop, recording the pair \<open>(start, day_end)\<close> of each round.
\<close>

function day_ranges :: "deps \<Rightarrow> naive \<Rightarrow> naive \<Rightarrow> (naive \<times> naive) list" where
  "day_ranges D start end =
     (if start < end
      then (start, day_end_of D start end) # day_ranges D (next_start D start) end
      else [])"
  by pat_completeness auto
termination
proof (relation "measure (\<lambda>(D, start, stop). nat (stop - start))", goal_cases)
  case 1
  show ?case by simp
next
  case (2 D start stop)
  have "start = (start div usec_per_day) * usec_per_day + start mod usec_per_day"
    by simp
  moreover have "start mod usec_per_day < usec_per_day"
    by (simp add: usec_per_day_def)
  ultimately have "start < (start div usec_per_day) * usec_per_day + usec_per_day"
    by linarith
  then have "start < next_start D start"
    by (simp add: next_start_def datetime_fillin_def midnight_def dt_date_def timedelta_days_def)
  with 2 show ?case by simp
qed

declare day_ranges.simps [simp del]

text \<open>The calls of \<^verbatim>\<open>get_list\<close> over a list of sub-ranges, stopping at the first abort.\<close>

fun run_ranges ::
  "deps \<Rightarrow> collection \<Rightarrow> locale_conf \<Rightarrow> string option \<Rightarrow> bool \<Rightarrow> env \<Rightarrow> int option
     \<Rightarrow> (naive \<times> naive) list \<Rightarrow> line list \<Rightarrow> abort + line list" where
  "run_ranges D coll locale format notstarted env width [] event_column = Inr event_column"
| "run_ranges D coll locale format notstarted env width ((a, b) # rs) event_column =
     (case get_list D coll locale a b format notstarted (Some env) width of
        Inl x \<Rightarrow> Inl x
      | Inr ls \<Rightarrow> run_ranges D coll locale format notstarted env width rs (event_column @ ls))"

section \<open>get\_agenda\<close>

text \<open>An entry of \<open>dates\<close> is a string to be parsed or a date.\<close>

datatype date_arg = DateStr string | DateObj pydate

text \<open>
  The list comprehension that parses \<open>dates\<close>: the first InvalidDate ends it.
  \<^verbatim>\<open>guessdatetimefstr\<close> returns a pair whose first component is the datetime.
\<close>

fun parse_dates :: "deps \<Rightarrow> locale_conf \<Rightarrow> date_arg list \<Rightarrow> string + pydate list" where
  "parse_dates D locale [] = Inr []"
| "parse_dates D locale (DateObj d # rest) =
     (case parse_dates D locale rest of Inl m \<Rightarrow> Inl m | Inr ds \<Rightarrow> Inr (d # ds))"
| "parse_dates D locale (DateStr s # rest) =
     (case guessdatetimefstr D [s] locale of
        Inl m \<Rightarrow> Inl m
      | Inr (dt, allday) \<Rightarrow>
          (case parse_dates D locale rest of Inl m \<Rightarrow> Inl m | Inr ds \<Rightarrow> Inr (dt_date dt # ds)))"

definition agenda_dates ::
  "deps \<Rightarrow> locale_conf \<Rightarrow> date_arg list option \<Rightarrow> string + pydate list" where
  "agenda_dates D locale dates =
     (case dates of
        None \<Rightarrow> Inr [today D]
      | Some ds \<Rightarrow> if length ds = 0 then Inr [today D] else parse_dates D locale ds)"

definition week_snap :: "int \<Rightarrow> pydate \<Rightarrow> pydate" where
  "week_snap firstweekday d = d - (weekday d - firstweekday) mod 7"

text \<open>\<^verbatim>\<open>range(days)\<close>, empty for a count that is not positive.\<close>

definition py_range :: "int \<Rightarrow> int list" where
  "py_range n = map int [0..<nat n]"

text \<open>
  The days of the window: the default count, the week modifier, then the expansion
  \<^verbatim>\<open>[day + timedelta(days=one) for one in range(days) for day in dates]\<close> and its sort.
\<close>

definition agenda_daylist :: "pydate list \<Rightarrow> int \<Rightarrow> int option \<Rightarrow> bool \<Rightarrow> pydate list" where
  "agenda_daylist dates firstweekday days week =
     (let days1 = (case days of None \<Rightarrow> 2 | Some n \<Rightarrow> n);
          dates' = (if week then map (week_snap firstweekday) dates else dates);
          days' = (if week then 7 else days1)
      in sort (concat (map (\<lambda>one. map (\<lambda>day. day + one) dates') (py_range days'))))"

definition construct_daynames :: "deps \<Rightarrow> pydate list \<Rightarrow> string \<Rightarrow> (pydate \<times> string) list" where
  "construct_daynames D daylist datefmt =
     map (\<lambda>day.
            if day = today D then (day, ''Today:'')
            else if day = today D + 1 then (day, ''Tomorrow:'')
            else (day, strftime D day datefmt))
         daylist"

text \<open>The lines of one event under a day: split, wrapped item by item, then coloured.\<close>

definition event_lines :: "deps \<Rightarrow> int \<Rightarrow> bool \<Rightarrow> bool \<Rightarrow> pydate \<Rightarrow> event \<Rightarrow> line list" where
  "event_lines D width full bold_for_light_color day event =
     (let items = splitlines D (ev_relative_to event day full);
          lines = concat (map (\<lambda>item. textwrap_wrap D item width) items)
      in map (\<lambda>line. Colored line (ev_color event) bold_for_light_color) lines)"

fun agenda_loop ::
  "deps \<Rightarrow> collection \<Rightarrow> int \<Rightarrow> bool \<Rightarrow> bool \<Rightarrow> bool \<Rightarrow> (pydate \<times> string) list
     \<Rightarrow> line list \<Rightarrow> line list" where
  "agenda_loop D coll width full show_all_days bflc [] event_column = event_column"
| "agenda_loop D coll width full show_all_days bflc ((day, dayname) # rest) event_column =
     (let events = sorted_events (get_events_on coll day) in
      if \<not> nonempty events \<and> \<not> show_all_days
      then agenda_loop D coll width full show_all_days bflc rest event_column
      else agenda_loop D coll width full show_all_days bflc rest
             ((if nonempty event_column then event_column @ [Plain []] else event_column)
                @ [Style dayname True]
                @ concat (map (event_lines D width full bflc day) events)))"

text \<open>The column before the final check for emptiness.\<close>

definition agenda_column ::
  "deps \<Rightarrow> collection \<Rightarrow> locale_conf \<Rightarrow> date_arg list option \<Rightarrow> int \<Rightarrow> int option \<Rightarrow> int
     \<Rightarrow> bool \<Rightarrow> bool \<Rightarrow> bool \<Rightarrow> bool \<Rightarrow> abort + line list" where
  "agenda_column D coll locale dates firstweekday days width week full show_all_days bflc =
     (case agenda_dates D locale dates of
        Inl m \<Rightarrow> Inl (SysExit1 (InvalidDate m))
      | Inr ds \<Rightarrow>
          Inr (agenda_loop D coll width full show_all_days bflc
                 (construct_daynames D (agenda_daylist ds firstweekday days week)
                    (longdateformat locale))
                 []))"

definition get_agenda ::
  "deps \<Rightarrow> collection \<Rightarrow> locale_conf \<Rightarrow> date_arg list option \<Rightarrow> int \<Rightarrow> int option \<Rightarrow> int
     \<Rightarrow> bool \<Rightarrow> bool \<Rightarrow> bool \<Rightarrow> bool \<Rightarrow> abort + line list" where
  "get_agenda D coll locale dates firstweekday days width week full show_all_days bflc =
     (case agenda_column D coll locale dates firstweekday days width week full show_all_days bflc of
        Inl a \<Rightarrow> Inl a
      | Inr event_column \<Rightarrow> Inr (if event_column = [] then no_events else event_column))"

section \<open>A concrete calendar\<close>

text \<open>
  A small calendar on 2024-06-12 (ordinal 739049, a Wednesday), used to run the
  definitions: a floating event at 08:00, a zoned event at 09:00, and an event whose
  template needs the key \<open>calendar\<close> of the environment. The stand-ins for
  \<^verbatim>\<open>textwrap.wrap\<close> and \<^verbatim>\<open>str.splitlines\<close> return their argument as one line, which
  is what the library returns for the short one-line strings of these events. The
  stand-in for the range parser knows three token lists: a start with a duration of
  zero minutes, a start with a later end, and a start whose end it cannot tell.
\<close>

definition sample_locale :: locale_conf where
  "sample_locale = \<lparr>longdateformat = ''%d.%m.%Y'', local_timezone = ''Europe/Berlin''\<rparr>"

definition at_0800 :: naive where
  "at_0800 = midnight 739049 + 8 * 3600000000"

definition at_0900 :: naive where
  "at_0900 = midnight 739049 + 9 * 3600000000"

definition sample_deps :: deps where
  "sample_deps =
     \<lparr>today = 739049,
      guessdatetimefstr = (\<lambda>ws l. Inl ''no date''),
      guessrangefstr =
        (\<lambda>ws l td. if ws = [''08:00'', ''0m''] then Inr (Some at_0800, Some at_0800)
                    else if ws = [''08:00'', ''09:00''] then Inr (Some at_0800, Some at_0900)
                    else if ws = [''08:00'', ''never''] then Inr (Some at_0800, None)
                    else Inl (''invalid date: '' @ concat ws)),
      guesstimedeltafstr = (\<lambda>s. if s = ''2d'' then Inr (timedelta_days 2) else Inl s),
      textwrap_wrap = (\<lambda>s w. [s]),
      splitlines = (\<lambda>s. [s]),
      strftime = (\<lambda>d f. f)\<rparr>"

definition ev_floating :: event where
  "ev_floating =
     \<lparr>ev_start = ADateTime \<lparr>wall = at_0800, tzinfo = None\<rparr>,
      ev_tiebreak = ''breakfast'',
      ev_color = ''dark green'',
      ev_format = (\<lambda>f r e. Inr ''08:00 breakfast''),
      ev_relative_to = (\<lambda>d full. ''08:00 breakfast'')\<rparr>"

definition ev_zoned :: event where
  "ev_zoned =
     \<lparr>ev_start = ADateTime \<lparr>wall = at_0900, tzinfo = Some ''Europe/Berlin''\<rparr>,
      ev_tiebreak = ''standup'',
      ev_color = ''dark red'',
      ev_format = (\<lambda>f r e. Inr ''09:00 standup''),
      ev_relative_to = (\<lambda>d full. ''09:00 standup'')\<rparr>"

definition ev_keyed :: event where
  "ev_keyed =
     \<lparr>ev_start = ADateTime \<lparr>wall = at_0900, tzinfo = None\<rparr>,
      ev_tiebreak = ''review'',
      ev_color = ''dark blue'',
      ev_format = (\<lambda>f r e. case e ''calendar'' of
                               None \<Rightarrow> Inl ''calendar''
                             | Some c \<Rightarrow> Inr (c @ '' review'')),
      ev_relative_to = (\<lambda>d full. ''09:00 review'')\<rparr>"

definition sample_collection :: collection where
  "sample_collection =
     \<lparr>get_events_on = (\<lambda>d. if d = 739049 then [ev_zoned, ev_floating] else []),
      get_localized = (\<lambda>s e. [ev_zoned]),
      get_floating = (\<lambda>s e. [ev_floating])\<rparr>"

definition keyed_collection :: collection where
  "keyed_collection =
     \<lparr>get_events_on = (\<lambda>d. []),
      get_localized = (\<lambda>s e. []),
      get_floating = (\<lambda>s e. if s \<le> at_0900 \<and> at_0900 < e then [ev_keyed] else [])\<rparr>"

definition empty_collection :: collection where
  "empty_collection =
     \<lparr>get_events_on = (\<lambda>d. []), get_localized = (\<lambda>s e. []), get_floating = (\<lambda>s e. [])\<rparr>"

text \<open>The strings the two events of the sample calendar render to.\<close>

definition sample_text :: "event \<Rightarrow> string" where
  "sample_text e =
     (if ev_tiebreak e = ''breakfast'' then ''08:00 breakfast'' else ''09:00 standup'')"

section \<open>The wrapping rule as the specification words it\<close>

text \<open>
  The specification's rule for a rendered string and a width: split the string on its
  line breaks, wrap each resulting line to the width, keep the order, and make each
  wrapped line one output line coloured with the event's calendar colour.
\<close>

definition spec_wrapped_lines :: "deps \<Rightarrow> int \<Rightarrow> string \<Rightarrow> bool \<Rightarrow> string \<Rightarrow> line list" where
  "spec_wrapped_lines D width color bflc rendered =
     map (\<lambda>l. Colored l color bflc)
       (concat (map (\<lambda>item. textwrap_wrap D item width) (splitlines D rendered)))"

section \<open>Properties of the loops\<close>

lemma sorted_events_sorted: "sorted (map canonical_key (sorted_events evs))"
  by (simp add: sorted_events_def)

lemma mset_sorted_events: "mset (sorted_events evs) = mset evs"
  by (simp add: sorted_events_def)

lemma loop_filter_True:
  "get_list_loop D loc start stop fmt True env width evs acc
     = get_list_loop D loc start stop fmt False env width
         (filter (\<lambda>e. \<not> event_start_naive (today D) loc e < start) evs) acc"
  by (induction evs arbitrary: acc) (simp_all split: sum.split)

lemma loop_filter:
  "get_list_loop D loc start stop fmt notstarted env width evs acc
     = get_list_loop D loc start stop fmt False env width
         (filter (\<lambda>e. \<not> (notstarted \<and> event_start_naive (today D) loc e < start)) evs) acc"
  by (cases notstarted) (simp_all add: loop_filter_True)

lemma loop_all:
  "\<forall>e\<in>set evs. ev_format e fmt (start, stop) env = Inr (txt e) \<Longrightarrow>
   get_list_loop D loc start stop fmt False env width evs acc
     = Inr (acc @ concat (map (\<lambda>e. list_lines D width (txt e)) evs))"
  by (induction evs arbitrary: acc) simp_all

lemma loop_abort_False:
  "\<exists>e\<in>set evs. isl (ev_format e fmt (start, stop) env) \<Longrightarrow>
   \<exists>k. get_list_loop D loc start stop fmt False env width evs acc = Inl (SysExit1 (KeyError k))"
proof (induction evs arbitrary: acc)
  case Nil
  then show ?case by simp
next
  case (Cons e evs)
  show ?case
  proof (cases "ev_format e fmt (start, stop) env")
    case (Inl k)
    then show ?thesis by simp
  next
    case (Inr s)
    with Cons.prems have "\<exists>e\<in>set evs. isl (ev_format e fmt (start, stop) env)"
      by auto
    from Cons.IH [OF this] Inr show ?thesis by simp
  qed
qed

lemma loop_abort:
  assumes "e \<in> set evs" and "\<not> (notstarted \<and> event_start_naive (today D) loc e < start)"
    and "isl (ev_format e fmt (start, stop) env)"
  shows "\<exists>k. get_list_loop D loc start stop fmt notstarted env width evs acc = Inl (SysExit1 (KeyError k))"
proof -
  from assms have "\<exists>x\<in>set (filter (\<lambda>e. \<not> (notstarted \<and> event_start_naive (today D) loc e < start)) evs).
      isl (ev_format x fmt (start, stop) env)"
    by auto
  from loop_abort_False [OF this] show ?thesis
    by (subst loop_filter)
qed

lemma loop_abort_kind:
  "get_list_loop D loc start stop fmt notstarted env width evs acc = Inl a \<Longrightarrow> \<exists>k. a = SysExit1 (KeyError k)"
  by (induction evs arbitrary: acc) (auto split: sum.splits if_splits)

lemma day_loop_run:
  "day_loop D coll loc fmt notstarted env width start stop col
     = run_ranges D coll loc fmt notstarted env width (day_ranges D start stop) col"
proof (induction D start stop arbitrary: col rule: day_ranges.induct)
  case (1 D start stop)
  show ?case
  proof (cases "start < stop")
    case True
    then show ?thesis
      using 1 [OF True]
      by (subst day_loop.simps, subst day_ranges.simps) (simp split: sum.split)
  next
    case False
    then show ?thesis
      by (subst day_loop.simps, subst day_ranges.simps) simp
  qed
qed

lemma run_ranges_abort:
  "(a, b) \<in> set rs \<Longrightarrow> isl (get_list D coll loc a b fmt notstarted (Some env) width) \<Longrightarrow>
   isl (run_ranges D coll loc fmt notstarted env width rs col)"
proof (induction rs arbitrary: col)
  case Nil
  then show ?case by simp
next
  case (Cons r rs)
  obtain c d where r: "r = (c, d)" by (cases r)
  show ?case
  proof (cases "get_list D coll loc c d fmt notstarted (Some env) width")
    case (Inl x)
    then show ?thesis by (simp add: r)
  next
    case (Inr ls)
    with Cons r show ?thesis by (auto simp: isl_def)
  qed
qed

section \<open>Day boundaries and the day-by-day partition\<close>

lemma usec_pos: "0 < usec_per_day" by (simp add: usec_per_day_def)

lemma midnight_le: "midnight (dt_date t) \<le> t"
proof -
  have "t = (t div usec_per_day) * usec_per_day + t mod usec_per_day" by simp
  moreover have "0 \<le> t mod usec_per_day" using usec_pos by simp
  ultimately have "(t div usec_per_day) * usec_per_day \<le> t" by linarith
  then show ?thesis by (simp add: midnight_def dt_date_def)
qed

lemma lt_next_midnight: "t < midnight (dt_date t + 1)"
proof -
  have "t = (t div usec_per_day) * usec_per_day + t mod usec_per_day" by simp
  moreover have "t mod usec_per_day < usec_per_day" using usec_pos by simp
  ultimately have "t < (t div usec_per_day) * usec_per_day + usec_per_day" by linarith
  then show ?thesis by (simp add: midnight_def dt_date_def algebra_simps)
qed

lemma dt_date_midnight: "dt_date (midnight d) = d"
  using usec_pos by (simp add: midnight_def dt_date_def)

lemma is_midnight_midnight: "is_midnight (midnight d)"
  by (simp add: is_midnight_def midnight_def)

lemma dt_date_mono: "s \<le> t \<Longrightarrow> dt_date s \<le> dt_date t"
  using usec_pos by (simp add: dt_date_def zdiv_mono1)

lemma next_midnight_le:
  assumes "s < t" and "dt_date s \<noteq> dt_date t"
  shows "midnight (dt_date s + 1) \<le> t"
proof -
  from assms dt_date_mono [of s t] have "dt_date s + 1 \<le> dt_date t" by simp
  then have "midnight (dt_date s + 1) \<le> midnight (dt_date t)"
    using usec_pos by (simp add: midnight_def)
  with midnight_le [of t] show ?thesis by simp
qed

lemma next_start_eq: "next_start D s = midnight (dt_date s + 1)"
  by (simp add: next_start_def datetime_fillin_def timedelta_days_def midnight_def algebra_simps)

lemma day_end_of_eq:
  "day_end_of D s t = (if dt_date s = dt_date t then t else midnight (dt_date s + 1))"
  by (simp add: day_end_of_def datetime_fillin_def)

lemma day_ranges_none: "\<not> s < t \<Longrightarrow> day_ranges D s t = []"
  by (subst day_ranges.simps) simp

lemma day_ranges_same_day:
  assumes "s < t" and "dt_date s = dt_date t"
  shows "day_ranges D s t = [(s, t)]"
proof -
  from assms(2) lt_next_midnight [of t] have "\<not> next_start D s < t"
    by (simp add: next_start_eq)
  then have "day_ranges D (next_start D s) t = []" by (rule day_ranges_none)
  with assms show ?thesis
    by (subst day_ranges.simps) (simp add: day_end_of_eq)
qed

lemma day_ranges_step:
  assumes "s < t" and "dt_date s \<noteq> dt_date t"
  shows "day_ranges D s t
           = (s, midnight (dt_date s + 1)) # day_ranges D (midnight (dt_date s + 1)) t"
  using assms by (subst day_ranges.simps) (simp add: day_end_of_eq next_start_eq)

lemma day_ranges_hd:
  "s < t \<Longrightarrow> day_ranges D s t \<noteq> [] \<and> fst (hd (day_ranges D s t)) = s"
  by (subst (1 2) day_ranges.simps) simp

lemma day_ranges_bounds:
  "(a, b) \<in> set (day_ranges D s t) \<Longrightarrow> s \<le> a \<and> a < b \<and> b \<le> t"
proof (induction D s t rule: day_ranges.induct)
  case (1 D s t)
  show ?case
  proof (cases "s < t")
    case False
    with 1 show ?thesis by (simp add: day_ranges_none)
  next
    case True
    show ?thesis
    proof (cases "dt_date s = dt_date t")
      case same: True
      with True 1 show ?thesis by (simp add: day_ranges_same_day)
    next
      case diff: False
      let ?m = "midnight (dt_date s + 1)"
      from 1(2) True diff
      have "(a, b) = (s, ?m) \<or> (a, b) \<in> set (day_ranges D ?m t)"
        by (simp add: day_ranges_step)
      then show ?thesis
      proof
        assume "(a, b) = (s, ?m)"
        with lt_next_midnight [of s] next_midnight_le [OF True diff] show ?thesis by simp
      next
        assume "(a, b) \<in> set (day_ranges D ?m t)"
        with 1(1) [OF True] have "?m \<le> a \<and> a < b \<and> b \<le> t"
          by (simp add: next_start_eq)
        with lt_next_midnight [of s] show ?thesis by simp
      qed
    qed
  qed
qed

lemma day_ranges_last:
  "s < t \<Longrightarrow> snd (last (day_ranges D s t)) = t"
proof (induction D s t rule: day_ranges.induct)
  case (1 D s t)
  show ?case
  proof (cases "dt_date s = dt_date t")
    case True
    with 1(2) show ?thesis by (simp add: day_ranges_same_day)
  next
    case diff: False
    let ?m = "midnight (dt_date s + 1)"
    have le: "?m \<le> t" using 1(2) diff by (rule next_midnight_le)
    show ?thesis
    proof (cases "?m < t")
      case True
      with 1(1) [OF 1(2)] have "snd (last (day_ranges D ?m t)) = t"
        by (simp add: next_start_eq)
      moreover from True have "day_ranges D ?m t \<noteq> []" by (simp add: day_ranges_hd)
      ultimately show ?thesis using 1(2) diff by (simp add: day_ranges_step)
    next
      case False
      with le have "?m = t" by simp
      moreover from False have "day_ranges D ?m t = []" by (rule day_ranges_none)
      ultimately show ?thesis using 1(2) diff by (simp add: day_ranges_step)
    qed
  qed
qed

lemma day_ranges_chain:
  "successively (\<lambda>(a, b) (c, d). b = c \<and> is_midnight b) (day_ranges D s t)"
proof (induction D s t rule: day_ranges.induct)
  case (1 D s t)
  show ?case
  proof (cases "s < t")
    case False
    then show ?thesis by (simp add: day_ranges_none)
  next
    case True
    show ?thesis
    proof (cases "dt_date s = dt_date t")
      case same: True
      with True show ?thesis by (simp add: day_ranges_same_day)
    next
      case diff: False
      let ?m = "midnight (dt_date s + 1)"
      from 1 [OF True] have ih: "successively (\<lambda>(a, b) (c, d). b = c \<and> is_midnight b) (day_ranges D ?m t)"
        by (simp add: next_start_eq)
      show ?thesis
      proof (cases "?m < t")
        case lt: True
        from day_ranges_hd [OF lt, of D] obtain r rs where
          rs: "day_ranges D ?m t = r # rs" and r: "fst r = ?m"
          by (cases "day_ranges D ?m t") auto
        with ih True diff show ?thesis
          by (cases r) (simp add: day_ranges_step is_midnight_midnight)
      next
        case False
        then have "day_ranges D ?m t = []" by (rule day_ranges_none)
        with True diff show ?thesis by (simp add: day_ranges_step)
      qed
    qed
  qed
qed

lemma day_ranges_union:
  "(\<Union>(a, b)\<in>set (day_ranges D s t). {a..<b}) = {s..<t}"
proof (induction D s t rule: day_ranges.induct)
  case (1 D s t)
  show ?case
  proof (cases "s < t")
    case False
    then show ?thesis by (simp add: day_ranges_none)
  next
    case True
    show ?thesis
    proof (cases "dt_date s = dt_date t")
      case same: True
      with True show ?thesis by (simp add: day_ranges_same_day)
    next
      case diff: False
      let ?m = "midnight (dt_date s + 1)"
      from 1 [OF True] have ih: "(\<Union>(a, b)\<in>set (day_ranges D ?m t). {a..<b}) = {?m..<t}"
        by (simp add: next_start_eq)
      have "s < ?m" by (rule lt_next_midnight)
      moreover have "?m \<le> t" using True diff by (rule next_midnight_le)
      ultimately have "{s..<?m} \<union> {?m..<t} = {s..<t}" by auto
      with ih True diff show ?thesis by (simp add: day_ranges_step)
    qed
  qed
qed

lemma day_ranges_ordered:
  "sorted_wrt (\<lambda>(a, b) (c, d). b \<le> c) (day_ranges D s t)"
proof (induction D s t rule: day_ranges.induct)
  case (1 D s t)
  show ?case
  proof (cases "s < t")
    case False
    then show ?thesis by (simp add: day_ranges_none)
  next
    case True
    show ?thesis
    proof (cases "dt_date s = dt_date t")
      case same: True
      with True show ?thesis by (simp add: day_ranges_same_day)
    next
      case diff: False
      let ?m = "midnight (dt_date s + 1)"
      from 1 [OF True] have ih: "sorted_wrt (\<lambda>(a, b) (c, d). b \<le> c) (day_ranges D ?m t)"
        by (simp add: next_start_eq)
      have "\<forall>r\<in>set (day_ranges D ?m t). ?m \<le> fst r"
        using day_ranges_bounds [of _ _ D ?m t] by auto
      with ih True diff show ?thesis
        by (auto simp: day_ranges_step)
    qed
  qed
qed

section \<open>The claims\<close>

lemma fillin_naive:
  "datetime_fillin tod (Some (naive_dt t)) e (Some loc) None
     = \<lparr>wall = t, tzinfo = Some (local_timezone loc)\<rparr>"
  by (simp add: datetime_fillin_def naive_dt_def)

lemma event_start_naive_eq: "event_start_naive tod loc e = start_reading (ev_start e)"
  by (cases "ev_start e")
     (auto simp: event_start_naive_def datetime_fillin_def replace_tzinfo_None_def
        start_reading_def split: option.split)

lemma merged_events_eq:
  "merged_events D coll loc start stop
     = sorted_events
         (sorted_events (get_localized coll \<lparr>wall = start, tzinfo = Some (local_timezone loc)\<rparr>
                                         \<lparr>wall = stop, tzinfo = Some (local_timezone loc)\<rparr>)
          @ sorted_events (get_floating coll start stop))"
  by (simp add: merged_events_def fillin_naive replace_tzinfo_None_def)

lemma get_list_eq:
  "get_list D coll loc start stop fmt notstarted env width
     = get_list_loop D loc start stop fmt notstarted
         (case env of None \<Rightarrow> Map.empty | Some m \<Rightarrow> m) width
         (merged_events D coll loc start stop) []"
  by (simp add: get_list_def fillin_naive replace_tzinfo_None_def)

text \<open>
  Claim C1. The merge step of \<^verbatim>\<open>get_list\<close> returns one sequence that is sorted
  (non-decreasing) by the canonical event order, whatever the zoned query
  (\<^verbatim>\<open>get_localized\<close>) and the floating query (\<^verbatim>\<open>get_floating\<close>) return; it holds
  exactly the events of the two results, with their multiplicities. In particular, when
  the zoned query returns one event starting at 09:00 and the floating query one event
  starting at 08:00 on the same day, the merged sequence is the floating event followed
  by the zoned one.
\<close>

theorem merge_totally_ordered:
  "sorted (map canonical_key (merged_events D coll loc start stop))
   \<and> mset (merged_events D coll loc start stop)
       = mset (get_localized coll \<lparr>wall = start, tzinfo = Some (local_timezone loc)\<rparr>
                                 \<lparr>wall = stop, tzinfo = Some (local_timezone loc)\<rparr>)
         + mset (get_floating coll start stop)
   \<and> (get_localized coll \<lparr>wall = start, tzinfo = Some (local_timezone loc)\<rparr>
                         \<lparr>wall = stop, tzinfo = Some (local_timezone loc)\<rparr> = [z]
        \<and> get_floating coll start stop = [f]
        \<and> ev_start z = ADateTime \<lparr>wall = midnight d + 9 * 3600000000, tzinfo = Some tz\<rparr>
        \<and> ev_start f = ADateTime \<lparr>wall = midnight d + 8 * 3600000000, tzinfo = None\<rparr>
        \<longrightarrow> merged_events D coll loc start stop = [f, z])"
proof (intro conjI impI)
  show "sorted (map canonical_key (merged_events D coll loc start stop))"
    by (simp add: merged_events_eq sorted_events_sorted)
  show "mset (merged_events D coll loc start stop)
       = mset (get_localized coll \<lparr>wall = start, tzinfo = Some (local_timezone loc)\<rparr>
                                 \<lparr>wall = stop, tzinfo = Some (local_timezone loc)\<rparr>)
         + mset (get_floating coll start stop)"
    by (simp add: merged_events_eq mset_sorted_events)
next
  assume "get_localized coll \<lparr>wall = start, tzinfo = Some (local_timezone loc)\<rparr>
                         \<lparr>wall = stop, tzinfo = Some (local_timezone loc)\<rparr> = [z]
        \<and> get_floating coll start stop = [f]
        \<and> ev_start z = ADateTime \<lparr>wall = midnight d + 9 * 3600000000, tzinfo = Some tz\<rparr>
        \<and> ev_start f = ADateTime \<lparr>wall = midnight d + 8 * 3600000000, tzinfo = None\<rparr>"
  then show "merged_events D coll loc start stop = [f, z]"
    by (simp add: merged_events_eq sorted_events_def canonical_key_def start_reading_def)
qed

text \<open>The scenario of C1 on the concrete calendar.\<close>

theorem merge_totally_ordered_witness:
  "merged_events sample_deps sample_collection sample_locale (midnight 739049) (midnight 739050)
     = [ev_floating, ev_zoned]
   \<and> sorted (map canonical_key [ev_floating, ev_zoned])"
proof -
  have loc: "get_localized sample_collection
               \<lparr>wall = midnight 739049, tzinfo = Some (local_timezone sample_locale)\<rparr>
               \<lparr>wall = midnight 739050, tzinfo = Some (local_timezone sample_locale)\<rparr> = [ev_zoned]"
    by (simp add: sample_collection_def)
  have flo: "get_floating sample_collection (midnight 739049) (midnight 739050) = [ev_floating]"
    by (simp add: sample_collection_def)
  have z: "ev_start ev_zoned
             = ADateTime \<lparr>wall = midnight 739049 + 9 * 3600000000, tzinfo = Some ''Europe/Berlin''\<rparr>"
    by (simp add: ev_zoned_def at_0900_def)
  have f: "ev_start ev_floating
             = ADateTime \<lparr>wall = midnight 739049 + 8 * 3600000000, tzinfo = None\<rparr>"
    by (simp add: ev_floating_def at_0800_def)
  from merge_totally_ordered [of sample_deps sample_collection sample_locale
         "midnight 739049" "midnight 739050" ev_zoned ev_floating 739049 "''Europe/Berlin''"]
    loc flo z f
  have m: "merged_events sample_deps sample_collection sample_locale (midnight 739049) (midnight 739050)
          = [ev_floating, ev_zoned]"
    and s: "sorted (map canonical_key (merged_events sample_deps sample_collection sample_locale (midnight 739049) (midnight 739050)))"
    by blast+
  from s m show ?thesis by simp
qed

text \<open>
  Claim C10. With \<open>once = True\<close>, \<^verbatim>\<open>get_list_from_str\<close> returns the same result
  under any two environment maps: that branch calls \<^verbatim>\<open>get_list\<close> without its
  \<open>env\<close> argument, so the map reaches \<^verbatim>\<open>event.format\<close> only on the branch
  \<^verbatim>\<open>not once\<close>.
\<close>

theorem once_ignores_env:
  "get_list_from_str D coll loc daterange notstarted fmt True default_timedelta env1 width
     = get_list_from_str D coll loc daterange notstarted fmt True default_timedelta env2 width"
  by (simp add: get_list_from_str_def list_column_def split: sum.split prod.split)

text \<open>
  Claim C2. The sub-ranges that the day-by-day loop of \<^verbatim>\<open>get_list_from_str\<close> hands
  to \<^verbatim>\<open>get_list\<close> form a finite list whose union is exactly \<open>[start, end)\<close>; each
  sub-range ends where the next one begins, at a local midnight; the list is ordered
  and no two sub-ranges overlap; every sub-range is non-empty and lies within the range;
  when \<open>start < end\<close> the first one begins at \<open>start\<close> and the last one ends at
  \<open>end\<close>. The loop is the run of \<^verbatim>\<open>get_list\<close> over these sub-ranges.
\<close>

theorem day_ranges_partition:
  "(\<Union>(a, b)\<in>set (day_ranges D start stop). {a..<b}) = {start..<stop}
   \<and> successively (\<lambda>(a, b) (c, d). b = c \<and> is_midnight b) (day_ranges D start stop)
   \<and> sorted_wrt (\<lambda>(a, b) (c, d). b \<le> c) (day_ranges D start stop)
   \<and> (\<forall>(a, b)\<in>set (day_ranges D start stop). start \<le> a \<and> a < b \<and> b \<le> stop)
   \<and> (start < stop \<longrightarrow> day_ranges D start stop \<noteq> []
         \<and> fst (hd (day_ranges D start stop)) = start
         \<and> snd (last (day_ranges D start stop)) = stop)
   \<and> day_loop D coll loc fmt notstarted env width start stop col
       = run_ranges D coll loc fmt notstarted env width (day_ranges D start stop) col"
proof (intro conjI impI)
  show "(\<Union>(a, b)\<in>set (day_ranges D start stop). {a..<b}) = {start..<stop}"
    by (rule day_ranges_union)
  show "successively (\<lambda>(a, b) (c, d). b = c \<and> is_midnight b) (day_ranges D start stop)"
    by (rule day_ranges_chain)
  show "sorted_wrt (\<lambda>(a, b) (c, d). b \<le> c) (day_ranges D start stop)"
    by (rule day_ranges_ordered)
  show "\<forall>(a, b)\<in>set (day_ranges D start stop). start \<le> a \<and> a < b \<and> b \<le> stop"
    using day_ranges_bounds [of _ _ D start stop] by blast
  show "day_loop D coll loc fmt notstarted env width start stop col
       = run_ranges D coll loc fmt notstarted env width (day_ranges D start stop) col"
    by (rule day_loop_run)
next
  assume lt: "start < stop"
  from day_ranges_hd [OF lt] show "day_ranges D start stop \<noteq> []" by simp
  from day_ranges_hd [OF lt] show "fst (hd (day_ranges D start stop)) = start" by simp
  from day_ranges_last [OF lt] show "snd (last (day_ranges D start stop)) = stop" .
qed

text \<open>A range from 08:00 on 2024-06-12 to five microseconds after midnight of 2024-06-14.\<close>

lemma day_ranges_example:
  "day_ranges sample_deps at_0800 (midnight 739051 + 5)
     = [(at_0800, midnight 739050), (midnight 739050, midnight 739051),
        (midnight 739051, midnight 739051 + 5)]"
proof -
  have d0: "dt_date at_0800 = 739049"
    by (simp add: at_0800_def dt_date_def midnight_def usec_per_day_def)
  have d2: "dt_date (midnight 739051 + 5) = 739051"
    by (simp add: dt_date_def midnight_def usec_per_day_def)
  have lt0: "at_0800 < midnight 739051 + 5"
    by (simp add: at_0800_def midnight_def usec_per_day_def)
  have lt1: "midnight 739050 < midnight 739051 + 5"
    by (simp add: midnight_def usec_per_day_def)
  have lt2: "midnight 739051 < midnight 739051 + 5"
    by simp
  have s2: "day_ranges sample_deps (midnight 739051) (midnight 739051 + 5)
              = [(midnight 739051, midnight 739051 + 5)]"
    using lt2 by (rule day_ranges_same_day) (simp add: d2 dt_date_midnight)
  have s1: "day_ranges sample_deps (midnight 739050) (midnight 739051 + 5)
              = (midnight 739050, midnight 739051) # day_ranges sample_deps (midnight 739051) (midnight 739051 + 5)"
    using day_ranges_step [OF lt1, of sample_deps] by (simp add: d2 dt_date_midnight)
  have s0: "day_ranges sample_deps at_0800 (midnight 739051 + 5)
              = (at_0800, midnight 739050) # day_ranges sample_deps (midnight 739050) (midnight 739051 + 5)"
    using day_ranges_step [OF lt0, of sample_deps] by (simp add: d0 d2)
  show ?thesis by (simp add: s0 s1 s2)
qed

theorem day_ranges_partition_witness:
  "at_0800 < midnight 739051 + 5
   \<and> day_ranges sample_deps at_0800 (midnight 739051 + 5)
       = [(at_0800, midnight 739050), (midnight 739050, midnight 739051),
          (midnight 739051, midnight 739051 + 5)]
   \<and> {at_0800..<midnight 739050} \<union> {midnight 739050..<midnight 739051}
       \<union> {midnight 739051..<midnight 739051 + 5} = {at_0800..<midnight 739051 + 5}
   \<and> is_midnight (midnight 739050) \<and> is_midnight (midnight 739051)"
proof -
  have lt: "at_0800 < midnight 739051 + 5"
    by (simp add: at_0800_def midnight_def usec_per_day_def)
  note p = day_ranges_partition [of sample_deps at_0800 "midnight 739051 + 5"
      sample_collection sample_locale None False Map.empty None "[]"]
  from p have u: "(\<Union>(a, b)\<in>set (day_ranges sample_deps at_0800 (midnight 739051 + 5)). {a..<b})
                    = {at_0800..<midnight 739051 + 5}"
    by blast
  from p have c: "successively (\<lambda>(a, b) (c, d). b = c \<and> is_midnight b)
                    (day_ranges sample_deps at_0800 (midnight 739051 + 5))"
    by blast
  from u c lt show ?thesis
    by (simp add: day_ranges_example Un_assoc)
qed

text \<open>
  Claim C3. With \<open>notstarted = True\<close>, \<^verbatim>\<open>get_list\<close> renders exactly the events of
  the merged sequence whose zone-naive start is not before the start of the range: its
  result is that of the loop without the filter on the merged sequence with the events
  starting strictly before \<open>start\<close> removed. With \<open>notstarted = False\<close> the loop runs
  over the whole merged sequence. When every \<^verbatim>\<open>event.format\<close> succeeds, the output is
  the concatenation of the lines of the kept events, in order: those starting at or after
  \<open>start\<close> in the first case, all of them in the second.
\<close>

theorem notstarted_filter:
  "get_list D coll loc start stop fmt True env width
     = get_list_loop D loc start stop fmt False (case env of None \<Rightarrow> Map.empty | Some m \<Rightarrow> m) width
         (filter (\<lambda>e. \<not> event_start_naive (today D) loc e < start)
            (merged_events D coll loc start stop)) []
   \<and> get_list D coll loc start stop fmt False env width
     = get_list_loop D loc start stop fmt False (case env of None \<Rightarrow> Map.empty | Some m \<Rightarrow> m) width
         (merged_events D coll loc start stop) []
   \<and> ((\<forall>e\<in>set evs. ev_format e fmt (start, stop) env' = Inr (txt e)) \<longrightarrow>
        get_list_loop D loc start stop fmt True env' width evs []
          = Inr (concat (map (\<lambda>e. list_lines D width (txt e))
                   (filter (\<lambda>e. start \<le> event_start_naive (today D) loc e) evs)))
        \<and> get_list_loop D loc start stop fmt False env' width evs []
          = Inr (concat (map (\<lambda>e. list_lines D width (txt e)) evs)))"
proof (intro conjI impI)
  show "get_list D coll loc start stop fmt True env width
     = get_list_loop D loc start stop fmt False (case env of None \<Rightarrow> Map.empty | Some m \<Rightarrow> m) width
         (filter (\<lambda>e. \<not> event_start_naive (today D) loc e < start)
            (merged_events D coll loc start stop)) []"
    by (simp add: get_list_eq loop_filter_True)
  show "get_list D coll loc start stop fmt False env width
     = get_list_loop D loc start stop fmt False (case env of None \<Rightarrow> Map.empty | Some m \<Rightarrow> m) width
         (merged_events D coll loc start stop) []"
    by (simp add: get_list_eq)
next
  assume ok: "\<forall>e\<in>set evs. ev_format e fmt (start, stop) env' = Inr (txt e)"
  from loop_all [OF ok, of D loc width "[]"]
  show "get_list_loop D loc start stop fmt False env' width evs []
          = Inr (concat (map (\<lambda>e. list_lines D width (txt e)) evs))"
    by simp
  from ok have "\<forall>e\<in>set (filter (\<lambda>e. \<not> event_start_naive (today D) loc e < start) evs).
                  ev_format e fmt (start, stop) env' = Inr (txt e)"
    by simp
  from loop_all [OF this, of D loc width "[]"]
  have "get_list_loop D loc start stop fmt False env' width
               (filter (\<lambda>e. \<not> event_start_naive (today D) loc e < start) evs) []
             = Inr (concat (map (\<lambda>e. list_lines D width (txt e))
                      (filter (\<lambda>e. \<not> event_start_naive (today D) loc e < start) evs)))"
    by simp
  then show "get_list_loop D loc start stop fmt True env' width evs []
          = Inr (concat (map (\<lambda>e. list_lines D width (txt e))
                   (filter (\<lambda>e. start \<le> event_start_naive (today D) loc e) evs)))"
    by (simp add: loop_filter_True not_less)
qed

lemma sample_merged:
  "merged_events sample_deps sample_collection sample_locale s t = [ev_floating, ev_zoned]"
  by (simp add: merged_events_eq sample_collection_def sorted_events_def canonical_key_def
        start_reading_def ev_floating_def ev_zoned_def at_0800_def at_0900_def)

text \<open>C3 on the two sample events, for a range that starts just after 08:00.\<close>

theorem notstarted_filter_witness:
  "get_list_loop sample_deps sample_locale (at_0800 + 1) at_0900 None True Map.empty None
      [ev_floating, ev_zoned] [] = Inr [Plain ''09:00 standup'']
   \<and> get_list_loop sample_deps sample_locale (at_0800 + 1) at_0900 None False Map.empty None
      [ev_floating, ev_zoned] [] = Inr [Plain ''08:00 breakfast'', Plain ''09:00 standup'']"
proof -
  have ok: "\<forall>e\<in>set [ev_floating, ev_zoned].
              ev_format e None (at_0800 + 1, at_0900) Map.empty = Inr (sample_text e)"
    by (simp add: ev_floating_def ev_zoned_def sample_text_def)
  have f: "event_start_naive (today sample_deps) sample_locale ev_floating = at_0800"
    by (simp add: event_start_naive_eq start_reading_def ev_floating_def)
  have z: "event_start_naive (today sample_deps) sample_locale ev_zoned = at_0900"
    by (simp add: event_start_naive_eq start_reading_def ev_zoned_def)
  have filt: "filter (\<lambda>e. at_0800 + 1 \<le> event_start_naive (today sample_deps) sample_locale e)
                [ev_floating, ev_zoned] = [ev_zoned]"
    by (simp add: f z) (simp add: at_0800_def at_0900_def)
  have tx: "sample_text ev_floating = ''08:00 breakfast''" "sample_text ev_zoned = ''09:00 standup''"
    by (simp_all add: sample_text_def ev_floating_def ev_zoned_def)
  from notstarted_filter [of sample_deps sample_collection sample_locale "at_0800 + 1" at_0900
         None None None "[ev_floating, ev_zoned]" Map.empty sample_text] ok
  have a: "get_list_loop sample_deps sample_locale (at_0800 + 1) at_0900 None True Map.empty None
          [ev_floating, ev_zoned] []
          = Inr (concat (map (\<lambda>e. list_lines sample_deps None (sample_text e))
                   (filter (\<lambda>e. at_0800 + 1 \<le> event_start_naive (today sample_deps) sample_locale e)
                      [ev_floating, ev_zoned])))"
    and b: "get_list_loop sample_deps sample_locale (at_0800 + 1) at_0900 None False Map.empty None
          [ev_floating, ev_zoned] []
          = Inr (concat (map (\<lambda>e. list_lines sample_deps None (sample_text e)) [ev_floating, ev_zoned]))"
    by blast+
  have a': "concat (map (\<lambda>e. list_lines sample_deps None (sample_text e))
                   (filter (\<lambda>e. at_0800 + 1 \<le> event_start_naive (today sample_deps) sample_locale e)
                      [ev_floating, ev_zoned])) = [Plain ''09:00 standup'']"
    by (simp only: filt) (simp add: tx list_lines_def)
  have b': "concat (map (\<lambda>e. list_lines sample_deps None (sample_text e)) [ev_floating, ev_zoned])
              = [Plain ''08:00 breakfast'', Plain ''09:00 standup'']"
    by (simp add: tx list_lines_def)
  show ?thesis
    by (simp only: a b a' b')
qed

lemma get_list_abort_kind:
  "get_list D coll loc a b fmt notstarted env width = Inl x \<Longrightarrow> \<exists>k. x = SysExit1 (KeyError k)"
  unfolding get_list_eq by (rule loop_abort_kind)

lemma run_ranges_abort_kind:
  "run_ranges D coll loc fmt notstarted env width rs col = Inl x \<Longrightarrow> \<exists>k. x = SysExit1 (KeyError k)"
proof (induction rs arbitrary: col)
  case Nil
  then show ?case by simp
next
  case (Cons r rs)
  obtain c d where r: "r = (c, d)" by (cases r)
  show ?case
  proof (cases "get_list D coll loc c d fmt notstarted (Some env) width")
    case (Inl y)
    with Cons.prems r have "x = y" by simp
    with get_list_abort_kind [OF Inl] show ?thesis by simp
  next
    case (Inr ls)
    with Cons.prems r have "run_ranges D coll loc fmt notstarted env width rs (col @ ls) = Inl x"
      by simp
    then show ?thesis by (rule Cons.IH)
  qed
qed

text \<open>
  Claim C7. When \<^verbatim>\<open>event.format\<close> raises KeyError for an event that the loop of
  \<^verbatim>\<open>get_list\<close> renders, in the single call of the branch \<open>once\<close> or in the call for
  any of the day sub-ranges, the whole call of \<^verbatim>\<open>get_list_from_str\<close> ends with the
  fatal exit for a KeyError: it returns no lines, neither those of the events already
  rendered nor those of the remaining ones.
\<close>

theorem format_keyerror_aborts:
  assumes range: "resolve_range D loc daterange default_timedelta = Inr (start, stop)"
    and sub: "(a, b) \<in> set (if once then [(start, stop)] else day_ranges D start stop)"
    and ev: "e \<in> set (merged_events D coll loc a b)"
    and sel: "\<not> (notstarted \<and> event_start_naive (today D) loc e < a)"
    and err: "ev_format e fmt (a, b)
                (if once then Map.empty else (case env of None \<Rightarrow> Map.empty | Some m \<Rightarrow> m)) = Inl k"
  shows "\<exists>k'. get_list_from_str D coll loc daterange notstarted fmt once default_timedelta env width
                 = Inl (SysExit1 (KeyError k'))"
proof (cases once)
  case True
  with sub have ab: "a = start" "b = stop" by simp_all
  from err True have "isl (ev_format e fmt (a, b) Map.empty)" by simp
  from loop_abort [OF ev sel this, of width "[]"]
  obtain k' where "get_list D coll loc a b fmt notstarted None width = Inl (SysExit1 (KeyError k'))"
    by (auto simp: get_list_eq)
  with range True ab show ?thesis
    by (simp add: get_list_from_str_def list_column_def)
next
  case False
  let ?env = "case env of None \<Rightarrow> Map.empty | Some m \<Rightarrow> m"
  from err False have "isl (ev_format e fmt (a, b) ?env)" by simp
  from loop_abort [OF ev sel this, of width "[]"]
  have "isl (get_list D coll loc a b fmt notstarted (Some ?env) width)"
    by (auto simp: get_list_eq)
  moreover from sub False have "(a, b) \<in> set (day_ranges D start stop)" by simp
  ultimately have "isl (run_ranges D coll loc fmt notstarted ?env width (day_ranges D start stop) [])"
    by (rule run_ranges_abort [rotated])
  then obtain x where x: "run_ranges D coll loc fmt notstarted ?env width (day_ranges D start stop) [] = Inl x"
    by (auto simp: isl_def)
  from run_ranges_abort_kind [OF x] obtain k' where "x = SysExit1 (KeyError k')" ..
  with x range False show ?thesis
    by (simp add: get_list_from_str_def list_column_def day_loop_run)
qed

lemma sample_resolve_default:
  "resolve_range sample_deps sample_locale [] None = Inr (midnight 739049, midnight 739050)"
  by (simp add: resolve_range_def datetime_fillin_def sample_deps_def naive_dt_def dt_date_midnight)

lemma keyed_merged:
  "merged_events sample_deps keyed_collection sample_locale (midnight 739049) (midnight 739050)
     = [ev_keyed]"
  by (simp add: merged_events_eq keyed_collection_def sorted_events_def at_0900_def midnight_def
        usec_per_day_def)

text \<open>
  C7 on the calendar whose event needs the key \<open>calendar\<close>: with \<open>once = True\<close> the
  environment is not handed on, the key is missing, and the call is aborted.
\<close>

theorem format_keyerror_aborts_witness:
  "\<exists>k'. get_list_from_str sample_deps keyed_collection sample_locale [] False None True None
           (Some [''calendar'' \<mapsto> ''work'']) None = Inl (SysExit1 (KeyError k'))"
proof -
  have sub: "(midnight 739049, midnight 739050)
               \<in> set (if True then [(midnight 739049, midnight 739050)]
                       else day_ranges sample_deps (midnight 739049) (midnight 739050))"
    by simp
  have ev: "ev_keyed \<in> set (merged_events sample_deps keyed_collection sample_locale
                               (midnight 739049) (midnight 739050))"
    by (simp add: keyed_merged)
  have sel: "\<not> (False \<and> event_start_naive (today sample_deps) sample_locale ev_keyed < midnight 739049)"
    by simp
  have err: "ev_format ev_keyed None (midnight 739049, midnight 739050)
               (if True then Map.empty
                else (case Some [''calendar'' \<mapsto> ''work''] of None \<Rightarrow> Map.empty | Some m \<Rightarrow> m))
             = Inl ''calendar''"
    by (simp add: ev_keyed_def)
  from format_keyerror_aborts [OF sample_resolve_default sub ev sel err]
  show ?thesis .
qed

text \<open>
  Claim C5. With an empty token list and no default duration the resolved range is
  \<open>[start-of-today, start-of-tomorrow)\<close>; with a default duration that the duration
  parser accepts it is \<open>[start-of-today, start-of-today + duration)\<close>. A default
  duration that the parser rejects with ValueError ends the call with the fatal exit.
\<close>

theorem default_range:
  "resolve_range D loc [] None = Inr (midnight (today D), midnight (today D + 1))
   \<and> (guesstimedeltafstr D td = Inr delta \<longrightarrow>
        resolve_range D loc [] (Some td) = Inr (midnight (today D), midnight (today D) + delta))
   \<and> (guesstimedeltafstr D td = Inl m \<longrightarrow>
        resolve_range D loc [] (Some td) = Inl (SysExit1 (ValueError m)))"
  by (simp add: resolve_range_def datetime_fillin_def naive_dt_def dt_date_midnight Let_def)

text \<open>C5 on 2024-06-12, with the durations \<open>2d\<close> and \<open>soon\<close>.\<close>

theorem default_range_witness:
  "resolve_range sample_deps sample_locale [] None = Inr (midnight 739049, midnight 739050)
   \<and> resolve_range sample_deps sample_locale [] (Some ''2d'')
       = Inr (midnight 739049, midnight 739049 + timedelta_days 2)
   \<and> resolve_range sample_deps sample_locale [] (Some ''soon'')
       = Inl (SysExit1 (ValueError ''soon''))"
proof -
  have t: "today sample_deps = 739049" by (simp add: sample_deps_def)
  have p: "guesstimedeltafstr sample_deps ''2d'' = Inr (timedelta_days 2)"
    by (simp add: sample_deps_def)
  have q: "guesstimedeltafstr sample_deps ''soon'' = Inl ''soon''"
    by (simp add: sample_deps_def)
  from default_range [of sample_deps sample_locale "''2d''" "timedelta_days 2"] p
    default_range [of sample_deps sample_locale "''soon''" _ "''soon''"] q
  show ?thesis by (simp add: t)
qed

lemma agenda_loop_empty:
  "\<forall>day\<in>fst ` set dn. get_events_on coll day = [] \<Longrightarrow>
   agenda_loop D coll width full False bflc dn col = col"
proof (induction dn arbitrary: col)
  case Nil
  then show ?case by simp
next
  case (Cons p dn)
  obtain day name where p: "p = (day, name)" by (cases p)
  with Cons show ?case
    by (simp add: sorted_events_def nonempty_def)
qed

lemma fst_construct_daynames: "map fst (construct_daynames D daylist f) = daylist"
  by (induction daylist) (simp_all add: construct_daynames_def)

text \<open>
  Claim C8. Both pipelines end with the same check: when the column of lines is empty,
  the result is the single bold line \<open>No events\<close>, so a returned result is never
  empty. In particular \<^verbatim>\<open>get_agenda\<close> returns exactly that line when no day of the
  window has an event and \<open>show_all_days\<close> is false.
\<close>

theorem empty_yields_placeholder:
  "(list_column D coll loc daterange notstarted fmt once td env width = Inr [] \<longrightarrow>
      get_list_from_str D coll loc daterange notstarted fmt once td env width
        = Inr [Style ''No events'' True])
   \<and> (get_list_from_str D coll loc daterange notstarted fmt once td env width = Inr ls \<longrightarrow>
        ls \<noteq> [])
   \<and> (agenda_column D coll loc dates firstweekday days w week full show_all_days bflc = Inr [] \<longrightarrow>
        get_agenda D coll loc dates firstweekday days w week full show_all_days bflc
          = Inr [Style ''No events'' True])
   \<and> (get_agenda D coll loc dates firstweekday days w week full show_all_days bflc = Inr ls' \<longrightarrow>
        ls' \<noteq> [])
   \<and> (agenda_dates D loc dates = Inr ds
        \<and> (\<forall>day\<in>set (agenda_daylist ds firstweekday days week). get_events_on coll day = [])
        \<longrightarrow> get_agenda D coll loc dates firstweekday days w week full False bflc
              = Inr [Style ''No events'' True])"
proof (intro conjI impI)
  assume "list_column D coll loc daterange notstarted fmt once td env width = Inr []"
  then show "get_list_from_str D coll loc daterange notstarted fmt once td env width
        = Inr [Style ''No events'' True]"
    by (simp add: get_list_from_str_def no_events_def)
next
  assume "get_list_from_str D coll loc daterange notstarted fmt once td env width = Inr ls"
  then show "ls \<noteq> []"
    by (auto simp: get_list_from_str_def no_events_def split: sum.splits if_splits)
next
  assume "agenda_column D coll loc dates firstweekday days w week full show_all_days bflc = Inr []"
  then show "get_agenda D coll loc dates firstweekday days w week full show_all_days bflc
          = Inr [Style ''No events'' True]"
    by (simp add: get_agenda_def no_events_def)
next
  assume "get_agenda D coll loc dates firstweekday days w week full show_all_days bflc = Inr ls'"
  then show "ls' \<noteq> []"
    by (auto simp: get_agenda_def no_events_def split: sum.splits if_splits)
next
  assume a: "agenda_dates D loc dates = Inr ds
        \<and> (\<forall>day\<in>set (agenda_daylist ds firstweekday days week). get_events_on coll day = [])"
  let ?dn = "construct_daynames D (agenda_daylist ds firstweekday days week) (longdateformat loc)"
  have "fst ` set ?dn = set (agenda_daylist ds firstweekday days week)"
    using fst_construct_daynames [of D "agenda_daylist ds firstweekday days week" "longdateformat loc"]
    by (metis set_map)
  with a have "\<forall>day\<in>fst ` set ?dn. get_events_on coll day = []" by simp
  then have "agenda_loop D coll w full False bflc ?dn [] = []"
    by (rule agenda_loop_empty)
  with a show "get_agenda D coll loc dates firstweekday days w week full False bflc
              = Inr [Style ''No events'' True]"
    by (simp add: get_agenda_def agenda_column_def no_events_def)
qed

text \<open>C8 on the calendar without events, for the day window and for the range of today.\<close>

theorem empty_yields_placeholder_witness:
  "get_agenda sample_deps empty_collection sample_locale None 0 None 45 False False False True
     = Inr [Style ''No events'' True]
   \<and> get_list_from_str sample_deps empty_collection sample_locale [] False None True None None None
     = Inr [Style ''No events'' True]"
proof -
  have d: "agenda_dates sample_deps sample_locale None = Inr [739049]"
    by (simp add: agenda_dates_def sample_deps_def)
  have e: "\<forall>day\<in>set (agenda_daylist [739049] 0 None False).
             get_events_on empty_collection day = []"
    by (simp add: empty_collection_def)
  have c: "list_column sample_deps empty_collection sample_locale [] False None True None None None
             = Inr []"
    by (simp add: list_column_def sample_resolve_default get_list_eq merged_events_eq
          empty_collection_def sorted_events_def)
  note t = empty_yields_placeholder [of sample_deps empty_collection sample_locale "[]" False None
      True None None None _ None 0 None 45 False False False True _ "[739049]"]
  from t c have "get_list_from_str sample_deps empty_collection sample_locale [] False None True
                   None None None = Inr [Style ''No events'' True]"
    by blast
  moreover from t d e
  have "get_agenda sample_deps empty_collection sample_locale None 0 None 45 False False False True
          = Inr [Style ''No events'' True]"
    by blast
  ultimately show ?thesis by simp
qed

lemma week_snap_bounds: "week_snap firstweekday d \<le> d \<and> d < week_snap firstweekday d + 7"
proof -
  have "0 \<le> (weekday d - firstweekday) mod 7" by simp
  moreover have "(weekday d - firstweekday) mod 7 < 7" by simp
  ultimately show ?thesis by (simp add: week_snap_def)
qed

lemma week_snap_weekday: "weekday (week_snap firstweekday d) = firstweekday mod 7"
proof -
  let ?a = "(d + 6) mod 7"
  have "(d - (?a - firstweekday) mod 7 + 6) mod 7 = (d + 6 - (?a - firstweekday) mod 7) mod 7"
    by (simp add: algebra_simps)
  also have "\<dots> = (d + 6 - (?a - firstweekday)) mod 7"
    by (rule mod_diff_right_eq)
  also have "\<dots> = (7 * ((d + 6) div 7) + firstweekday) mod 7"
  proof -
    have "d + 6 = 7 * ((d + 6) div 7) + (d + 6) mod 7" by simp
    then have "d + 6 - (?a - firstweekday) = 7 * ((d + 6) div 7) + firstweekday" by linarith
    then show ?thesis by (rule arg_cong [where f = "\<lambda>x. x mod 7"])
  qed
  also have "\<dots> = firstweekday mod 7"
    by simp
  finally show ?thesis by (simp add: weekday_def week_snap_def)
qed

lemma py_range_7: "py_range 7 = [0, 1, 2, 3, 4, 5, 6]"
  by code_simp

lemma ymd_june_2024:
  "ymd 2024 6 10 = Some 739047" "ymd 2024 6 11 = Some 739048" "ymd 2024 6 12 = Some 739049"
  "ymd 2024 6 13 = Some 739050" "ymd 2024 6 14 = Some 739051" "ymd 2024 6 15 = Some 739052"
  "ymd 2024 6 16 = Some 739053"
  by (simp_all add: ymd_def days_in_month_def days_before_year_def days_before_month_def
        is_leap_def)

lemma agenda_daylist_week:
  "agenda_daylist dates firstweekday days True
     = sort (concat (map (\<lambda>one. map (\<lambda>d. week_snap firstweekday d + one) dates)
                       [0, 1, 2, 3, 4, 5, 6]))"
  by (simp add: agenda_daylist_def py_range_7 comp_def)

lemma sort_week: "sort [s, s + 1, s + 2, s + 3, s + 4, s + 5, s + (6::int)]
                    = [s, s + 1, s + 2, s + 3, s + 4, s + 5, s + 6]"
  by simp

text \<open>
  Claim C9. With \<open>week = True\<close> the day list is built from the anchors moved back by
  \<open>(weekday - firstweekday) mod 7\<close> days, each expanded to 7 consecutive days whatever
  the day count was, and sorted: the snap comes before the expansion. The snapped date
  is the start of the anchor's week: its weekday is \<open>firstweekday\<close> (modulo 7) and it
  lies at most 6 days before the anchor. In particular 2024-06-12 is a Wednesday, and
  with \<open>firstweekday = 0\<close> its window is the seven days from Monday 2024-06-10 to
  Sunday 2024-06-16.
\<close>

theorem week_window:
  "agenda_daylist dates firstweekday days True
     = sort (concat (map (\<lambda>one. map (\<lambda>d. d - (weekday d - firstweekday) mod 7 + one) dates)
                       [0, 1, 2, 3, 4, 5, 6]))
   \<and> length (agenda_daylist dates firstweekday days True) = 7 * length dates
   \<and> agenda_daylist [d] firstweekday days True
       = map (\<lambda>one. d - (weekday d - firstweekday) mod 7 + one) [0, 1, 2, 3, 4, 5, 6]
   \<and> weekday (d - (weekday d - firstweekday) mod 7) = firstweekday mod 7
   \<and> d - (weekday d - firstweekday) mod 7 \<le> d
   \<and> d < d - (weekday d - firstweekday) mod 7 + 7
   \<and> ymd 2024 6 12 = Some 739049 \<and> weekday 739049 = 2
   \<and> map Some (agenda_daylist [739049] 0 days True) = map (ymd 2024 6) [10, 11, 12, 13, 14, 15, 16]"
proof (intro conjI)
  show "agenda_daylist dates firstweekday days True
     = sort (concat (map (\<lambda>one. map (\<lambda>d. d - (weekday d - firstweekday) mod 7 + one) dates)
                       [0, 1, 2, 3, 4, 5, 6]))"
    by (simp only: agenda_daylist_week week_snap_def)
  show "length (agenda_daylist dates firstweekday days True) = 7 * length dates"
    by (simp add: agenda_daylist_week)
  have one: "agenda_daylist [d] firstweekday days True
               = map (\<lambda>one. week_snap firstweekday d + one) [0, 1, 2, 3, 4, 5, 6]" for d
    using sort_week [of "week_snap firstweekday d"] by (simp add: agenda_daylist_week)
  from one [of d]
  show "agenda_daylist [d] firstweekday days True
       = map (\<lambda>one. d - (weekday d - firstweekday) mod 7 + one) [0, 1, 2, 3, 4, 5, 6]"
    by (simp only: week_snap_def)
  show "weekday (d - (weekday d - firstweekday) mod 7) = firstweekday mod 7"
    using week_snap_weekday [of firstweekday d] by (simp only: week_snap_def)
  show "d - (weekday d - firstweekday) mod 7 \<le> d"
    using week_snap_bounds [of firstweekday d] by (simp only: week_snap_def)
  show "d < d - (weekday d - firstweekday) mod 7 + 7"
    using week_snap_bounds [of firstweekday d] by (simp only: week_snap_def)
  show "ymd 2024 6 12 = Some 739049" by (rule ymd_june_2024)
  show "weekday 739049 = 2" by (simp add: weekday_def)
  have snap: "week_snap 0 739049 = 739047" by (simp add: week_snap_def weekday_def)
  have "agenda_daylist [739049] 0 days True
          = [739047, 739048, 739049, 739050, 739051, 739052, 739053]"
    by (simp add: agenda_daylist_week snap)
  then show "map Some (agenda_daylist [739049] 0 days True)
               = map (ymd 2024 6) [10, 11, 12, 13, 14, 15, 16]"
    by (simp add: ymd_june_2024)
qed

text \<open>C9 for the anchor 2024-06-12, with the week starting on Monday and on Sunday.\<close>

theorem week_window_witness:
  "agenda_daylist [739049] 0 (Some 2) True
     = [739047, 739048, 739049, 739050, 739051, 739052, 739053]
   \<and> agenda_daylist [739049] 6 None True
     = [739046, 739047, 739048, 739049, 739050, 739051, 739052]
   \<and> weekday 739047 = 0 \<and> weekday 739046 = 6"
proof -
  from week_window [of "[739049]" 0 "Some 2" 739049]
  have a: "agenda_daylist [739049] 0 (Some 2) True
        = map (\<lambda>one. 739049 - (weekday 739049 - 0) mod 7 + one) [0, 1, 2, 3, 4, 5, 6]"
    by blast
  from week_window [of "[739049]" 6 None 739049]
  have b: "agenda_daylist [739049] 6 None True
        = map (\<lambda>one. 739049 - (weekday 739049 - 6) mod 7 + one) [0, 1, 2, 3, 4, 5, 6]"
    by blast
  show ?thesis
    by (simp only: a b) (simp add: weekday_def)
qed

text \<open>
  Claim C4, as stated, does not hold: for a non-empty token list the range is the pair
  that the range parser returns, and \<^verbatim>\<open>get_list_from_str\<close> compares its two ends
  nowhere. With a parser that reads the tokens \<open>08:00 0m\<close> as a start and a duration
  of zero minutes, the resolved range has \<open>start = end\<close> and no error is raised.
\<close>

theorem range_equal_ends_counterexample:
  "resolve_range sample_deps sample_locale [''08:00'', ''0m''] None = Inr (at_0800, at_0800)
   \<and> \<not> at_0800 < at_0800"
  by (simp add: resolve_range_def sample_deps_def)

text \<open>
  Claim C4, amended. For every non-empty token list, range resolution returns a range
  exactly when the range parser returns a start and an end that are both present, and
  then it returns that pair as it is, without comparing the two ends; when the parser
  raises InvalidDate the call ends with the fatal exit for that error, and when the
  parser returns a missing start or end it ends with the fatal exit for an InvalidDate
  whose message carries the tokens joined by spaces. No other error ends it.
\<close>

theorem range_from_parser:
  assumes "daterange \<noteq> []"
  shows "(resolve_range D loc daterange td = Inr (s, e)
           \<longleftrightarrow> guessrangefstr D daterange loc td = Inr (Some s, Some e))
         \<and> (guessrangefstr D daterange loc td = Inl m
              \<longrightarrow> resolve_range D loc daterange td = Inl (SysExit1 (InvalidDate m)))
         \<and> (guessrangefstr D daterange loc td = Inr (so, eo) \<and> (so = None \<or> eo = None)
              \<longrightarrow> resolve_range D loc daterange td
                    = Inl (SysExit1 (InvalidDate
                        (''Invalid date range: '' @ [CHR 0x22] @ join_space daterange @ [CHR 0x22]))))
         \<and> (resolve_range D loc daterange td = Inl x \<longrightarrow> (\<exists>m'. x = SysExit1 (InvalidDate m')))"
  using assms
  by (auto simp: resolve_range_def split: sum.splits prod.splits option.splits)

text \<open>The three outcomes of C4 on the stand-in parser.\<close>

theorem range_from_parser_witness:
  "resolve_range sample_deps sample_locale [''08:00'', ''09:00''] None = Inr (at_0800, at_0900)
   \<and> resolve_range sample_deps sample_locale [''08:00'', ''never''] None
       = Inl (SysExit1 (InvalidDate ''Invalid date range: \"08:00 never\"''))
   \<and> resolve_range sample_deps sample_locale [''yesterday''] None
       = Inl (SysExit1 (InvalidDate ''invalid date: yesterday''))"
proof -
  have a: "guessrangefstr sample_deps [''08:00'', ''09:00''] sample_locale None
             = Inr (Some at_0800, Some at_0900)"
    by (simp add: sample_deps_def)
  have b: "guessrangefstr sample_deps [''08:00'', ''never''] sample_locale None
             = Inr (Some at_0800, None)"
    by (simp add: sample_deps_def)
  have c: "guessrangefstr sample_deps [''yesterday''] sample_locale None
             = Inl ''invalid date: yesterday''"
    by (simp add: sample_deps_def)
  have ne: "[''08:00'', ''09:00''] \<noteq> []" "[''08:00'', ''never''] \<noteq> []" "[''yesterday''] \<noteq> []"
    by simp_all
  from range_from_parser [OF ne(1), of sample_deps sample_locale None at_0800 at_0900] a
  have r1: "resolve_range sample_deps sample_locale [''08:00'', ''09:00''] None
              = Inr (at_0800, at_0900)"
    by blast
  from range_from_parser [OF ne(2), of sample_deps sample_locale None _ _ _ "Some at_0800" None] b
  have r2: "resolve_range sample_deps sample_locale [''08:00'', ''never''] None
              = Inl (SysExit1 (InvalidDate
                  (''Invalid date range: '' @ [CHR 0x22] @ join_space [''08:00'', ''never''] @ [CHR 0x22])))"
    by blast
  from range_from_parser [OF ne(3), of sample_deps sample_locale None _ _ "''invalid date: yesterday''"] c
  have r3: "resolve_range sample_deps sample_locale [''yesterday''] None
              = Inl (SysExit1 (InvalidDate ''invalid date: yesterday''))"
    by blast
  show ?thesis
    by (simp only: r1 r2 r3) (simp add: join_space_def)
qed

text \<open>
  Claim C6, as stated, does not hold for \<^verbatim>\<open>get_list\<close>: with a width of 80, the
  lines it returns for the two sample events are the wrapped strings themselves, while
  the rule of the claim yields lines coloured with the events' calendar colours.
\<close>

theorem list_lines_uncoloured_counterexample:
  "get_list sample_deps sample_collection sample_locale (midnight 739049) (midnight 739050)
      None False None (Some 80)
     = Inr [Plain ''08:00 breakfast'', Plain ''09:00 standup'']
   \<and> spec_wrapped_lines sample_deps 80 (ev_color ev_floating) True ''08:00 breakfast''
       @ spec_wrapped_lines sample_deps 80 (ev_color ev_zoned) True ''09:00 standup''
     = [Colored ''08:00 breakfast'' ''dark green'' True, Colored ''09:00 standup'' ''dark red'' True]
   \<and> [Plain ''08:00 breakfast'', Plain ''09:00 standup'']
     \<noteq> [Colored ''08:00 breakfast'' ''dark green'' True, Colored ''09:00 standup'' ''dark red'' True]"
proof (intro conjI)
  have f: "ev_format ev_floating None (midnight 739049, midnight 739050) Map.empty
             = Inr ''08:00 breakfast''"
    by (simp add: ev_floating_def)
  have z: "ev_format ev_zoned None (midnight 739049, midnight 739050) Map.empty
             = Inr ''09:00 standup''"
    by (simp add: ev_zoned_def)
  have w: "list_lines sample_deps (Some 80) s = [Plain s]" for s
    by (simp add: list_lines_def sample_deps_def)
  show "get_list sample_deps sample_collection sample_locale (midnight 739049) (midnight 739050)
      None False None (Some 80)
     = Inr [Plain ''08:00 breakfast'', Plain ''09:00 standup'']"
    by (simp add: get_list_eq sample_merged f z w)
  show "spec_wrapped_lines sample_deps 80 (ev_color ev_floating) True ''08:00 breakfast''
       @ spec_wrapped_lines sample_deps 80 (ev_color ev_zoned) True ''09:00 standup''
     = [Colored ''08:00 breakfast'' ''dark green'' True, Colored ''09:00 standup'' ''dark red'' True]"
    by (simp add: spec_wrapped_lines_def sample_deps_def ev_floating_def ev_zoned_def)
  show "[Plain ''08:00 breakfast'', Plain ''09:00 standup'']
     \<noteq> [Colored ''08:00 breakfast'' ''dark green'' True, Colored ''09:00 standup'' ''dark red'' True]"
    by simp
qed

text \<open>One round of the loop of \<^verbatim>\<open>get_agenda\<close> for a day that is shown.\<close>

lemma agenda_loop_step:
  assumes "nonempty (sorted_events (get_events_on coll day)) \<or> show_all_days"
  shows "agenda_loop D coll width full show_all_days bflc ((day, dayname) # rest) col
           = agenda_loop D coll width full show_all_days bflc rest
               ((if col = [] then [] else col @ [Plain []])
                  @ [Style dayname True]
                  @ concat (map (\<lambda>e. spec_wrapped_lines D width (ev_color e) bflc
                                        (ev_relative_to e day full))
                              (sorted_events (get_events_on coll day))))"
proof -
  have el: "event_lines D width full bflc day
              = (\<lambda>e. spec_wrapped_lines D width (ev_color e) bflc (ev_relative_to e day full))"
    by (rule ext) (simp add: event_lines_def spec_wrapped_lines_def)
  have ne: "nonempty col \<longleftrightarrow> col \<noteq> []"
    by (cases col) (simp_all add: nonempty_def)
  from assms show ?thesis
    by (auto simp: Let_def el ne)
qed

text \<open>
  Claim C6, amended. In the day-window pipeline (\<^verbatim>\<open>get_agenda\<close>) the text of every
  event is split on its line breaks, each resulting line is wrapped to the width, in
  order, and each wrapped line becomes one output line coloured with the event's
  calendar colour, under the bold header of its day. In the range pipeline
  (\<^verbatim>\<open>get_list\<close>) a rendered string is handed to the wrapper as a whole when a width
  other than 0 is given, and each wrapped line becomes one output line as it is,
  without a colour; without a width (or with width 0) the rendered string is one output
  line. When every \<^verbatim>\<open>event.format\<close> succeeds, the result of \<^verbatim>\<open>get_list\<close> is the
  concatenation of these lines over the merged events, in order.
\<close>

theorem wrap_rule_by_pipeline:
  "event_lines D width full bflc day e
     = spec_wrapped_lines D width (ev_color e) bflc (ev_relative_to e day full)
   \<and> (nonempty (sorted_events (get_events_on coll day)) \<or> show_all_days \<longrightarrow>
        agenda_loop D coll width full show_all_days bflc ((day, dayname) # rest) col
          = agenda_loop D coll width full show_all_days bflc rest
              ((if col = [] then [] else col @ [Plain []])
                 @ [Style dayname True]
                 @ concat (map (\<lambda>e. spec_wrapped_lines D width (ev_color e) bflc
                                       (ev_relative_to e day full))
                             (sorted_events (get_events_on coll day)))))
   \<and> (w \<noteq> 0 \<longrightarrow> list_lines D (Some w) s = map Plain (textwrap_wrap D s w))
   \<and> list_lines D (Some 0) s = [Plain s]
   \<and> list_lines D None s = [Plain s]
   \<and> ((\<forall>e\<in>set (merged_events D coll loc start stop).
          ev_format e fmt (start, stop) (case env of None \<Rightarrow> Map.empty | Some m \<Rightarrow> m) = Inr (txt e))
        \<longrightarrow> get_list D coll loc start stop fmt False env wd
              = Inr (concat (map (\<lambda>e. list_lines D wd (txt e)) (merged_events D coll loc start stop))))"
proof (intro conjI impI)
  show "event_lines D width full bflc day e
     = spec_wrapped_lines D width (ev_color e) bflc (ev_relative_to e day full)"
    by (simp add: event_lines_def spec_wrapped_lines_def)
  show "list_lines D (Some 0) s = [Plain s]" by (simp add: list_lines_def)
  show "list_lines D None s = [Plain s]" by (simp add: list_lines_def)
next
  assume "nonempty (sorted_events (get_events_on coll day)) \<or> show_all_days"
  then show "agenda_loop D coll width full show_all_days bflc ((day, dayname) # rest) col
          = agenda_loop D coll width full show_all_days bflc rest
              ((if col = [] then [] else col @ [Plain []])
                 @ [Style dayname True]
                 @ concat (map (\<lambda>e. spec_wrapped_lines D width (ev_color e) bflc
                                       (ev_relative_to e day full))
                             (sorted_events (get_events_on coll day))))"
    by (rule agenda_loop_step)
next
  assume "w \<noteq> 0"
  then show "list_lines D (Some w) s = map Plain (textwrap_wrap D s w)"
    by (simp add: list_lines_def)
next
  assume ok: "\<forall>e\<in>set (merged_events D coll loc start stop).
          ev_format e fmt (start, stop) (case env of None \<Rightarrow> Map.empty | Some m \<Rightarrow> m) = Inr (txt e)"
  from loop_all [OF ok, of D loc wd "[]"]
  show "get_list D coll loc start stop fmt False env wd
              = Inr (concat (map (\<lambda>e. list_lines D wd (txt e)) (merged_events D coll loc start stop)))"
    by (simp add: get_list_eq)
qed

text \<open>C6, amended, on the sample calendar: one day of the agenda and the list of that day.\<close>

theorem wrap_rule_by_pipeline_witness:
  "agenda_loop sample_deps sample_collection 45 False False True [(739049, ''Today:'')] []
     = [Style ''Today:'' True,
        Colored ''08:00 breakfast'' ''dark green'' True,
        Colored ''09:00 standup'' ''dark red'' True]
   \<and> get_list sample_deps sample_collection sample_locale (midnight 739049) (midnight 739050)
        None False None (Some 80)
     = Inr [Plain ''08:00 breakfast'', Plain ''09:00 standup'']"
proof -
  have se: "sorted_events (get_events_on sample_collection 739049) = [ev_floating, ev_zoned]"
    by (simp add: sample_collection_def sorted_events_def canonical_key_def start_reading_def
          ev_floating_def ev_zoned_def at_0800_def at_0900_def)
  have ne: "nonempty (sorted_events (get_events_on sample_collection 739049)) \<or> False"
    by (simp add: se nonempty_def)
  have ok: "\<forall>e\<in>set (merged_events sample_deps sample_collection sample_locale
                        (midnight 739049) (midnight 739050)).
              ev_format e None (midnight 739049, midnight 739050)
                (case None of None \<Rightarrow> Map.empty | Some m \<Rightarrow> m) = Inr (sample_text e)"
    by (simp add: sample_merged ev_floating_def ev_zoned_def sample_text_def)
  have tx: "sample_text ev_floating = ''08:00 breakfast''" "sample_text ev_zoned = ''09:00 standup''"
    by (simp_all add: sample_text_def ev_floating_def ev_zoned_def)
  note t = wrap_rule_by_pipeline [of sample_deps 45 False True 739049 _ sample_collection False
      "''Today:''" "[]" "[]" 80 _ sample_locale "midnight 739049" "midnight 739050" None None
      sample_text "Some 80"]
  from t [THEN conjunct2, THEN conjunct1, THEN mp, OF ne]
  have a: "agenda_loop sample_deps sample_collection 45 False False True [(739049, ''Today:'')] []
        = agenda_loop sample_deps sample_collection 45 False False True []
              ((if ([]::line list) = [] then [] else [] @ [Plain []])
                 @ [Style ''Today:'' True]
                 @ concat (map (\<lambda>e. spec_wrapped_lines sample_deps 45 (ev_color e) True
                                       (ev_relative_to e 739049 False))
                             (sorted_events (get_events_on sample_collection 739049))))"
    .
  from t [THEN conjunct2, THEN conjunct2, THEN conjunct2, THEN conjunct2, THEN conjunct2,
           THEN mp, OF ok]
  have b: "get_list sample_deps sample_collection sample_locale (midnight 739049) (midnight 739050)
        None False None (Some 80)
        = Inr (concat (map (\<lambda>e. list_lines sample_deps (Some 80) (sample_text e))
                 (merged_events sample_deps sample_collection sample_locale
                    (midnight 739049) (midnight 739050))))"
    .
  have a': "agenda_loop sample_deps sample_collection 45 False False True []
              ((if ([]::line list) = [] then [] else [] @ [Plain []])
                 @ [Style ''Today:'' True]
                 @ concat (map (\<lambda>e. spec_wrapped_lines sample_deps 45 (ev_color e) True
                                       (ev_relative_to e 739049 False))
                             (sorted_events (get_events_on sample_collection 739049))))
            = [Style ''Today:'' True,
               Colored ''08:00 breakfast'' ''dark green'' True,
               Colored ''09:00 standup'' ''dark red'' True]"
    by (simp only: se) (simp add: spec_wrapped_lines_def sample_deps_def ev_floating_def ev_zoned_def)
  have b': "concat (map (\<lambda>e. list_lines sample_deps (Some 80) (sample_text e))
                 (merged_events sample_deps sample_collection sample_locale
                    (midnight 739049) (midnight 739050)))
            = [Plain ''08:00 breakfast'', Plain ''09:00 standup'']"
    by (simp only: sample_merged) (simp add: tx list_lines_def sample_deps_def)
  show ?thesis
    by (simp only: a b a' b')
qed

section \<open>The sample calendar, end to end\<close>

text \<open>The day-by-day loop over today has one round.\<close>

lemma sample_day_ranges:
  "day_ranges sample_deps (midnight 739049) (midnight 739050)
     = [(midnight 739049, midnight 739050)]"
proof -
  have lt: "midnight 739049 < midnight 739050"
    by (simp add: midnight_def usec_per_day_def)
  have ne: "dt_date (midnight 739049) \<noteq> dt_date (midnight 739050)"
    by (simp add: dt_date_midnight)
  have "day_ranges sample_deps (midnight 739050) (midnight 739050) = []"
    by (rule day_ranges_none) simp
  with day_ranges_step [OF lt ne, of sample_deps] show ?thesis
    by (simp add: dt_date_midnight)
qed

text \<open>
  The environment reaches \<^verbatim>\<open>event.format\<close> on the day-by-day branch: there the
  event that needs the key \<open>calendar\<close> is rendered when the environment has it and the
  call is aborted when it has not, while with \<open>once = True\<close> it is aborted in both
  cases.
\<close>

lemma env_reaches_format_per_day:
  "get_list_from_str sample_deps keyed_collection sample_locale [] False None False None
     (Some [''calendar'' \<mapsto> ''work'']) None = Inr [Plain ''work review'']
   \<and> get_list_from_str sample_deps keyed_collection sample_locale [] False None False None
     None None = Inl (SysExit1 (KeyError ''calendar''))
   \<and> get_list_from_str sample_deps keyed_collection sample_locale [] False None True None
     (Some [''calendar'' \<mapsto> ''work'']) None = Inl (SysExit1 (KeyError ''calendar''))"
  by (simp add: get_list_from_str_def list_column_def sample_resolve_default day_loop_run
        sample_day_ranges get_list_eq keyed_merged ev_keyed_def list_lines_def no_events_def)

text \<open>The agenda of the one day of the sample calendar.\<close>

lemma sample_agenda:
  "get_agenda sample_deps sample_collection sample_locale (Some [DateObj 739049]) 0 (Some 1) 45
     False False False True
     = Inr [Style ''Today:'' True,
            Colored ''08:00 breakfast'' ''dark green'' True,
            Colored ''09:00 standup'' ''dark red'' True]"
proof -
  have se: "sorted_events (get_events_on sample_collection 739049) = [ev_floating, ev_zoned]"
    by (simp add: sample_collection_def sorted_events_def canonical_key_def start_reading_def
          ev_floating_def ev_zoned_def at_0800_def at_0900_def)
  have dl: "agenda_daylist [739049] 0 (Some 1) False = [739049]"
    by (simp add: agenda_daylist_def py_range_def)
  have dn: "construct_daynames sample_deps [739049] (longdateformat sample_locale)
              = [(739049, ''Today:'')]"
    by (simp add: construct_daynames_def sample_deps_def)
  have lines: "event_lines sample_deps 45 False True 739049 ev_floating
                 = [Colored ''08:00 breakfast'' ''dark green'' True]"
    "event_lines sample_deps 45 False True 739049 ev_zoned
                 = [Colored ''09:00 standup'' ''dark red'' True]"
    by (simp_all add: event_lines_def sample_deps_def ev_floating_def ev_zoned_def)
  have "agenda_loop sample_deps sample_collection 45 False False True [(739049, ''Today:'')] []
          = [Style ''Today:'' True,
             Colored ''08:00 breakfast'' ''dark green'' True,
             Colored ''09:00 standup'' ''dark red'' True]"
    by (simp add: se lines nonempty_def)
  then show ?thesis
    by (simp add: get_agenda_def agenda_column_def agenda_dates_def dl dn)
qed

end
